theory Spec2Isabelle
  imports Main
begin

section \<open>JavaScript strings\<close>

text \<open>
  A string is the list of its UTF-16 code units, and a \<open>char\<close> is a code unit from 0 to
  255: the model covers the texts of the Latin-1 range, one \<open>char\<close> for each character.
  On these texts white space (the class \<open>\s\<close>, and what \<open>trim\<close> removes) is space, tab,
  line feed, vertical tab, form feed, carriage return and the no-break space U+00A0, and
  \<open>toLowerCase\<close> changes the letters A to Z, U+00C0 to U+00D6 and U+00D8 to U+00DE. Under the
  \<open>i\<close> flag two characters match when they are equal after lower-casing (on this range the
  same pairs as after upper-casing, the comparison of the language definition); the classes
  \<open>[A-Za-z]\<close> and \<open>\d\<close> hold ASCII characters only. Seconds are whole numbers
  (\<open>int\<close>), and arithmetic on them is exact; \<open>parseInt\<close> of a run of digits is its
  value, as in JavaScript below \<open>2 ^ 53\<close>.
\<close>

definition is_upper :: "char \<Rightarrow> bool" where
  "is_upper c = (c \<in> set ''ABCDEFGHIJKLMNOPQRSTUVWXYZ'')"

definition is_lower :: "char \<Rightarrow> bool" where
  "is_lower c = (c \<in> set ''abcdefghijklmnopqrstuvwxyz'')"

definition is_letter :: "char \<Rightarrow> bool" where
  "is_letter c = (is_upper c \<or> is_lower c)"

definition is_digit :: "char \<Rightarrow> bool" where
  "is_digit c = (c \<in> set ''0123456789'')"

text \<open>
  The class \<open>\s\<close>: space, tab, line feed, vertical tab, form feed, carriage return,
  no-break space.
\<close>

definition is_space :: "char \<Rightarrow> bool" where
  "is_space c =
     (c \<in> set [CHR '' '', CHR 0x09, CHR 0x0A, CHR 0x0B, CHR 0x0C, CHR 0x0D, CHR 0xA0])"

text \<open>
  Lower-casing adds 32 to the code of an upper-case letter: A to Z (65 to 90), and the
  letters from U+00C0 to U+00DE (192 to 222) without the multiplication sign U+00D7 (215).
\<close>

definition lower_char :: "char \<Rightarrow> char" where
  "lower_char c =
     (if of_char c \<in> {65..90} \<union> {192..214} \<union> {216..222 :: nat}
      then char_of (of_char c + 32 :: nat) else c)"

definition toLowerCase :: "string \<Rightarrow> string" where
  "toLowerCase s = map lower_char s"

fun startsWith :: "string \<Rightarrow> string \<Rightarrow> bool" where
  "startsWith s [] = True"
| "startsWith [] (p # ps) = False"
| "startsWith (c # cs) (p # ps) = (c = p \<and> startsWith cs ps)"

text \<open>\<open>s.includes(p)\<close>: \<open>p\<close> occurs in \<open>s\<close> as a contiguous substring.\<close>

fun js_includes :: "string \<Rightarrow> string \<Rightarrow> bool" where
  "js_includes [] p = (p = [])"
| "js_includes (c # cs) p = (startsWith (c # cs) p \<or> js_includes cs p)"

text \<open>\<open>xs.join(sep)\<close>.\<close>

fun join :: "string \<Rightarrow> string list \<Rightarrow> string" where
  "join sep [] = []"
| "join sep [x] = x"
| "join sep (x # y # ys) = x @ sep @ join sep (y # ys)"

text \<open>
  \<open>s.split(/\s+/)\<close>: the pieces between maximal runs of white space; a run at either end
  leaves an empty piece there, and the empty string gives one empty piece.
\<close>

function split_ws :: "string \<Rightarrow> string \<Rightarrow> string list" where
  "split_ws cur [] = [cur]"
| "split_ws cur (c # cs) =
     (if is_space c then cur # split_ws [] (dropWhile is_space cs)
      else split_ws (cur @ [c]) cs)"
  by pat_completeness auto
termination
  by (relation "measure (\<lambda>(cur, s). length s)")
     (auto simp: less_Suc_eq_le length_dropWhile_le)

definition split_whitespace :: "string \<Rightarrow> string list" where
  "split_whitespace s = split_ws [] s"

text \<open>\<open>s.trim()\<close>.\<close>

definition trim :: "string \<Rightarrow> string" where
  "trim s = rev (dropWhile is_space (rev (dropWhile is_space s)))"

text \<open>A natural number in a template literal: its decimal digits.\<close>

definition digit_char :: "nat \<Rightarrow> char" where
  "digit_char n = ''0123456789'' ! (n mod 10)"

function show_nat :: "nat \<Rightarrow> string" where
  "show_nat n = (if n < 10 then [digit_char n] else show_nat (n div 10) @ [digit_char n])"
  by pat_completeness auto
termination
  by (relation "measure id") auto

text \<open>
  \<open>[...new Set(xs)]\<close>: the distinct elements in the order of their first occurrence
  (\<open>remdups\<close> alone keeps the last occurrence of each).
\<close>

definition unique_in_order :: "'a list \<Rightarrow> 'a list" where
  "unique_in_order xs = rev (remdups (rev xs))"

text \<open>
  \<open>xs.slice(0, n)\<close> for an integer \<open>n\<close>: a negative \<open>n\<close> counts from the end.
\<close>

definition slice_to :: "int \<Rightarrow> 'a list \<Rightarrow> 'a list" where
  "slice_to n xs = (if n < 0 then take (nat (int (length xs) + n)) xs else take (nat n) xs)"

section \<open>Regular expressions\<close>

text \<open>
  Every pattern of the program carries the \<open>i\<close> flag, so a literal matches without regard
  to case and a class is given as a predicate closed under case. A match is
  found by backtracking: \<open>run r s c\<close> lists, in the order a backtracking matcher tries
  them, the ways \<open>r\<close> can match a prefix of \<open>s\<close>, each as the unmatched rest of \<open>s\<close> with the
  capture groups set on the way (\<open>c\<close> holds those set before). The star is greedy and, as
  in JavaScript, an iteration that consumes nothing ends the repetition.
\<close>

datatype rx =
    Eps
  | Sym "char \<Rightarrow> bool"
  | Lit string
  | Cat rx rx
  | Alt rx rx
  | Star rx
  | Grp nat rx

type_synonym caps = "(nat \<times> string) list"

fun lit_ci :: "string \<Rightarrow> string \<Rightarrow> string option" where
  "lit_ci [] s = Some s"
| "lit_ci (p # ps) [] = None"
| "lit_ci (p # ps) (c # cs) = (if lower_char c = lower_char p then lit_ci ps cs else None)"

fun star_run ::
  "(string \<Rightarrow> caps \<Rightarrow> (string \<times> caps) list) \<Rightarrow> nat \<Rightarrow> string \<Rightarrow> caps \<Rightarrow> (string \<times> caps) list" where
  "star_run f 0 s c = [(s, c)]"
| "star_run f (Suc n) s c =
     concat (map (\<lambda>(s', c'). if length s' < length s then star_run f n s' c' else []) (f s c))
     @ [(s, c)]"

primrec run :: "rx \<Rightarrow> string \<Rightarrow> caps \<Rightarrow> (string \<times> caps) list" where
  "run Eps s c = [(s, c)]"
| "run (Sym p) s c = (case s of [] \<Rightarrow> [] | x # xs \<Rightarrow> if p x then [(xs, c)] else [])"
| "run (Lit w) s c = (case lit_ci w s of None \<Rightarrow> [] | Some s' \<Rightarrow> [(s', c)])"
| "run (Cat a b) s c = concat (map (\<lambda>(s', c'). run b s' c') (run a s c))"
| "run (Alt a b) s c = run a s c @ run b s c"
| "run (Star a) s c = star_run (run a) (length s) s c"
| "run (Grp n a) s c =
     map (\<lambda>(s', c'). (s', (n, take (length s - length s') s) # c')) (run a s c)"

definition Plus :: "rx \<Rightarrow> rx" where
  "Plus r = Cat r (Star r)"

definition Opt :: "rx \<Rightarrow> rx" where
  "Opt r = Alt r Eps"

text \<open>\<open>(?:w1|w2|...|wn)\<close>, a non-empty alternation of literals.\<close>

definition alts :: "string list \<Rightarrow> rx" where
  "alts ws = foldr (\<lambda>w r. Alt (Lit w) r) (butlast ws) (Lit (last ws))"

text \<open>\<open>r1 r2 ... rn\<close> in sequence.\<close>

definition cats :: "rx list \<Rightarrow> rx" where
  "cats rs = foldr Cat rs Eps"

text \<open>
  The leftmost match: the first start position at which the pattern matches, with the
  length of the match and its capture groups (\<open>i\<close> counts the characters skipped so far).
\<close>

fun exec_from :: "rx \<Rightarrow> nat \<Rightarrow> string \<Rightarrow> (nat \<times> nat \<times> caps) option" where
  "exec_from r i s =
     (case run r s [] of
        (s', c) # _ \<Rightarrow> Some (i, length s - length s', c)
      | [] \<Rightarrow> (case s of [] \<Rightarrow> None | _ # t \<Rightarrow> exec_from r (Suc i) t))"

definition rx_exec :: "rx \<Rightarrow> string \<Rightarrow> (nat \<times> nat \<times> caps) option" where
  "rx_exec r s = exec_from r 0 s"

text \<open>\<open>regex.test(s)\<close>.\<close>

definition rx_test :: "rx \<Rightarrow> string \<Rightarrow> bool" where
  "rx_test r s = (rx_exec r s \<noteq> None)"

section \<open>Transcripts and candidate segments\<close>

text \<open>
  A transcript segment as the API delivers it. \<open>words\<close> holds the texts of the word
  tokens; the key-moment code tests for its absence, so it is optional.
\<close>

record transcript =
  speaker :: string
  start_time :: int
  end_time :: "int option"
  words :: "string list option"

datatype segment_type = ContentSegment | ConversationSegment | StructuralSegment

record candidate =
  timestamp :: int
  cand_speaker :: string
  cand_text :: string
  importance :: int
  cand_type :: segment_type
  description :: string

text \<open>\<open>t.words ? t.words.map(w => w.text).join(" ") : ""\<close>\<close>

definition segment_text :: "transcript \<Rightarrow> string" where
  "segment_text t = (case words t of None \<Rightarrow> [] | Some ws \<Rightarrow> join '' '' ws)"

text \<open>\<open>t.speaker || "Unknown speaker"\<close>\<close>

definition speaker_or_unknown :: "transcript \<Rightarrow> string" where
  "speaker_or_unknown t = (if speaker t = [] then ''Unknown speaker'' else speaker t)"

section \<open>Chunking (\<open>groupTranscriptsIntoChunks\<close>)\<close>

text \<open>
  The loop state is the finished chunks, the current chunk and its reference time.
\<close>

definition chunk_step ::
  "int \<Rightarrow> transcript list list \<times> transcript list \<times> int \<Rightarrow> transcript
   \<Rightarrow> transcript list list \<times> transcript list \<times> int" where
  "chunk_step maxChunkDuration st segment =
     (case st of (chunks, currentChunk, chunkStartTime) \<Rightarrow>
        if currentChunk = [] \<or> start_time segment - chunkStartTime \<le> maxChunkDuration
        then (chunks, currentChunk @ [segment], chunkStartTime)
        else (chunks @ [currentChunk], [segment], start_time segment))"

definition groupTranscriptsIntoChunks :: "transcript list \<Rightarrow> int \<Rightarrow> transcript list list" where
  "groupTranscriptsIntoChunks transcripts maxChunkDuration =
     (case transcripts of
        [] \<Rightarrow> []
      | first # _ \<Rightarrow>
          (case foldl (chunk_step maxChunkDuration) ([], [], start_time first) transcripts of
             (chunks, currentChunk, _) \<Rightarrow>
               if currentChunk \<noteq> [] then chunks @ [currentChunk] else chunks))"

section \<open>Content scoring (\<open>findImportantSegments\<close>, \<open>determineDescription\<close>)\<close>

definition importance_terms :: rx where
  "importance_terms =
     alts [''important'', ''key'', ''critical'', ''essential'', ''significant'', ''main'', ''major'']"

definition summary_terms :: rx where
  "summary_terms =
     alts [''summarize'', ''summary'', ''summarizing'', ''conclude'', ''conclusion'',
           ''in conclusion'', ''to sum up'']"

definition obligation_terms :: rx where
  "obligation_terms =
     alts [''need to'', ''have to'', ''must'', ''should'', ''will'', ''going to'', ''plan to'',
           ''action item'']"

definition decision_terms :: rx where
  "decision_terms =
     alts [''agree'', ''disagree'', ''consensus'', ''decision'', ''decide'', ''decided'',
           ''determined'']"

definition problem_terms :: rx where
  "problem_terms = alts [''problem'', ''issue'', ''challenge'', ''obstacle'', ''difficulty'']"

definition solution_terms :: rx where
  "solution_terms =
     alts [''solution'', ''resolve'', ''solve'', ''approach'', ''strategy'', ''tactic'']"

definition next_steps_terms :: rx where
  "next_steps_terms =
     alts [''next steps'', ''follow up'', ''get back'', ''circle back'', ''future'', ''next time'']"

definition importancePatterns :: "(rx \<times> int) list" where
  "importancePatterns =
     [(importance_terms, 3), (summary_terms, 4), (obligation_terms, 2), (decision_terms, 3),
      (problem_terms, 2), (solution_terms, 2), (next_steps_terms, 3)]"

text \<open>The pattern that \<open>determineDescription\<close> uses for next steps is a list of its own.\<close>

definition description_next_steps_terms :: rx where
  "description_next_steps_terms =
     alts [''next steps'', ''follow up'', ''moving forward'', ''future'', ''plan'']"

definition determineDescription :: "string \<Rightarrow> int \<Rightarrow> string" where
  "determineDescription text imp =
     (if rx_test summary_terms text then ''Summary or conclusion''
      else if rx_test description_next_steps_terms text then ''Discussion about next steps''
      else if rx_test decision_terms text then ''Decision point''
      else if rx_test problem_terms text then ''Problem discussion''
      else if rx_test solution_terms text then ''Solution discussion''
      else if imp > 5 then ''Highly important discussion''
      else if imp > 3 then ''Important point''
      else ''Notable discussion'')"

text \<open>\<open>text.split(/\s+/).length\<close>\<close>

definition wordCount :: "string \<Rightarrow> nat" where
  "wordCount text = length (split_whitespace text)"

definition importanceScore :: "string \<Rightarrow> int" where
  "importanceScore text =
     sum_list (map snd (filter (\<lambda>(regex, weight). rx_test regex text) importancePatterns))
     + int (min 2 (wordCount text div 20))"

definition important_segment :: "transcript \<Rightarrow> candidate list" where
  "important_segment t =
     (case words t of
        None \<Rightarrow> []
      | Some ws \<Rightarrow>
          (let text = join '' '' ws; score = importanceScore text
           in if score > 0
              then [\<lparr>timestamp = start_time t, cand_speaker = speaker_or_unknown t,
                     cand_text = text, importance = score, cand_type = ContentSegment,
                     description = determineDescription text score\<rparr>]
              else []))"

definition findImportantSegments :: "transcript list \<Rightarrow> candidate list" where
  "findImportantSegments transcripts = concat (map important_segment transcripts)"

section \<open>Conversational exchanges and structural segments\<close>

text \<open>\<open>new Set([s1.speaker, s2.speaker, s3.speaker].filter(Boolean)).size\<close>\<close>

definition speakers_size :: "transcript \<Rightarrow> transcript \<Rightarrow> transcript \<Rightarrow> nat" where
  "speakers_size s1 s2 s3 =
     length (remdups (filter (\<lambda>n. n \<noteq> []) [speaker s1, speaker s2, speaker s3]))"

text \<open>
  The index loop looks at the window of three segments at \<open>i\<close>; after a hit it moves on by
  three, otherwise by one. Fewer than three segments give nothing.
\<close>

fun findConversationalExchanges :: "transcript list \<Rightarrow> candidate list" where
  "findConversationalExchanges (segment1 # segment2 # segment3 # rest) =
     (if speakers_size segment1 segment2 segment3 \<ge> 2
         \<and> start_time segment3 - start_time segment1 < 60
      then \<lparr>timestamp = start_time segment1, cand_speaker = speaker_or_unknown segment1,
             cand_text = segment_text segment1,
             importance = 2 + int (speakers_size segment1 segment2 segment3),
             cand_type = ConversationSegment,
             description = ''Active discussion with ''
                 @ show_nat (speakers_size segment1 segment2 segment3) @ '' participants''\<rparr>
           # findConversationalExchanges rest
      else findConversationalExchanges (segment2 # segment3 # rest))"
| "findConversationalExchanges _ = []"

definition getStructuralSegments :: "transcript list \<Rightarrow> candidate list" where
  "getStructuralSegments transcripts =
     (case transcripts of
        [] \<Rightarrow> []
      | first # _ \<Rightarrow>
          \<lparr>timestamp = start_time first, cand_speaker = speaker_or_unknown first,
            cand_text = segment_text first, importance = 5, cand_type = StructuralSegment,
            description = ''Meeting start''\<rparr>
          # (if length transcripts > 1 \<and> start_time (last transcripts) \<noteq> start_time first
             then [\<lparr>timestamp = start_time (last transcripts),
                    cand_speaker = speaker_or_unknown (last transcripts),
                    cand_text = segment_text (last transcripts), importance = 4,
                    cand_type = StructuralSegment, description = ''Meeting conclusion''\<rparr>]
             else []))"

definition scoreSegments :: "candidate list \<Rightarrow> candidate list" where
  "scoreSegments segments = map (\<lambda>segment. segment) segments"

section \<open>Deduplication and ranking\<close>

text \<open>The loop state is the result and the timestamps accepted so far.\<close>

definition dedup_step :: "candidate list \<times> int list \<Rightarrow> candidate \<Rightarrow> candidate list \<times> int list" where
  "dedup_step st segment =
     (case st of (result, usedTimeRanges) \<Rightarrow>
        if list_ex (\<lambda>range. \<bar>timestamp segment - range\<bar> < 30) usedTimeRanges
        then (result, usedTimeRanges)
        else (result @ [segment], usedTimeRanges @ [timestamp segment]))"

definition deduplicateSegments :: "candidate list \<Rightarrow> candidate list" where
  "deduplicateSegments segments =
     (if length segments \<le> 1 then segments
      else fst (foldl dedup_step ([], []) segments))"

text \<open>
  Steps 5 and 6 of the tool: sort by importance (descending; the sort is stable),
  deduplicate, sort by timestamp, cut to \<open>maxMoments\<close>.
\<close>

definition sortByImportance :: "candidate list \<Rightarrow> candidate list" where
  "sortByImportance allSegments = sort_key (\<lambda>s. - importance s) allSegments"

definition rankSegments :: "candidate list \<Rightarrow> int \<Rightarrow> candidate list" where
  "rankSegments allSegments maxMoments =
     slice_to maxMoments
       (sort_key timestamp (deduplicateSegments (sortByImportance allSegments)))"

section \<open>The key-moments tool (\<open>findKeyMomentsTool\<close>)\<close>

datatype granularity = High | Medium | Low

record km_args =
  botId :: string
  meetingTitle :: "string option"
  topics :: "string list option"
  maxMoments :: int
  granularity :: granularity
  autoDetectTopics :: bool

text \<open>
  What the tool reads of the API's answer. The answer either has no \<open>bot_data.bot\<close>
  (\<open>None\<close> below) or has the declared shape.
\<close>

record meeting_data =
  bot_name :: string
  mp4 :: string
  transcripts :: "transcript list"

record key_moment =
  km_timestamp :: int
  km_speaker :: string
  km_description :: string

text \<open>
  The report text is the title line, the section of main topics when there is one, and
  the list of segments; the record keeps the three parts apart.
\<close>

record report =
  report_title :: string
  report_topics :: "string list option"
  report_segments :: "key_moment list"

datatype km_result =
    AuthenticationFailed
  | NoMeetingData string
  | NoTranscript string
  | NoKeyMoments string
  | KeyMoments report
  | KeyMomentsError string

definition topicLimit :: "granularity \<Rightarrow> nat" where
  "topicLimit g = (if g = High then 10 else if g = Medium then 7 else 5)"

definition candidateSegments :: "transcript list list \<Rightarrow> candidate list" where
  "candidateSegments contextChunks =
     concat (map (\<lambda>chunk. findImportantSegments chunk @ findConversationalExchanges chunk)
               contextChunks)"

text \<open>
  The topic detector (\<open>identifyTopicsWithAI\<close>) is a parameter: what follows holds
  whatever topics it finds in a chunk.
\<close>

definition allMeetingTopics ::
  "(transcript list \<Rightarrow> string list) \<Rightarrow> km_args \<Rightarrow> transcript list list \<Rightarrow> string list" where
  "allMeetingTopics identifyTopics args contextChunks =
     (case topics args of None \<Rightarrow> [] | Some ts \<Rightarrow> ts)
     @ (if autoDetectTopics args then concat (map identifyTopics contextChunks) else [])"

definition allSegments :: "transcript list \<Rightarrow> candidate list" where
  "allSegments sortedTranscripts =
     scoreSegments (candidateSegments (groupTranscriptsIntoChunks sortedTranscripts 300))
     @ getStructuralSegments sortedTranscripts"

definition finalSegments :: "transcript list \<Rightarrow> int \<Rightarrow> candidate list" where
  "finalSegments ts n = rankSegments (allSegments (sort_key start_time ts)) n"

definition formatSegment :: "candidate \<Rightarrow> key_moment" where
  "formatSegment segment =
     \<lparr>km_timestamp = timestamp segment, km_speaker = cand_speaker segment,
       km_description = description segment\<rparr>"

definition uniqueTopics ::
  "(transcript list \<Rightarrow> string list) \<Rightarrow> km_args \<Rightarrow> transcript list \<Rightarrow> string list" where
  "uniqueTopics identifyTopics args ts =
     unique_in_order
       (allMeetingTopics identifyTopics args
          (groupTranscriptsIntoChunks (sort_key start_time ts) 300))"

definition topicsSection :: "granularity \<Rightarrow> string list \<Rightarrow> string list option" where
  "topicsSection g unique =
     (if length unique > 0 then Some (take (topicLimit g) unique) else None)"

text \<open>
  \<open>validSession\<close> tells whether an API key was found; \<open>response\<close> is the outcome of the
  request for the meeting data, \<open>Inl\<close> the message of the exception it threw.
\<close>

definition findKeyMomentsTool ::
  "(transcript list \<Rightarrow> string list) \<Rightarrow> bool \<Rightarrow> string + meeting_data option \<Rightarrow> km_args
   \<Rightarrow> km_result" where
  "findKeyMomentsTool identifyTopics validSession response args =
     (if \<not> validSession then AuthenticationFailed
      else case response of
        Inl message \<Rightarrow> KeyMomentsError message
      | Inr None \<Rightarrow> NoMeetingData (botId args)
      | Inr (Some data) \<Rightarrow>
          (let title =
                 (case meetingTitle args of
                    Some t \<Rightarrow> if t \<noteq> [] then t
                              else if bot_name data \<noteq> [] then bot_name data
                              else ''Meeting Recording''
                  | None \<Rightarrow> if bot_name data \<noteq> [] then bot_name data
                            else ''Meeting Recording'')
           in if length (transcripts data) = 0 then NoTranscript title
              else
                (let final = finalSegments (transcripts data) (maxMoments args)
                 in if length final = 0 then NoKeyMoments title
                    else KeyMoments
                           \<lparr>report_title = title,
                             report_topics =
                               topicsSection (granularity args)
                                 (uniqueTopics identifyTopics args (transcripts data)),
                             report_segments = map formatSegment final\<rparr>)))"


section \<open>Sessions, the tracking store and the API\<close>

text \<open>The session object; the search tools attach \<open>recentBotIds\<close> to it.\<close>

record session =
  apiKey :: string
  recentBotIds :: "string list option"

text \<open>
  The part of a bot record that \<open>extractBotMetadata\<close> computes; the other fields are
  copied from the answer as they are. An answer without \<open>bot_data.bot\<close> gives the empty
  object.
\<close>

record bot_metadata =
  md_name :: "string option"
  md_topics :: "string list option"

definition commonKeywords :: "string list" where
  "commonKeywords = [''budget'', ''project'', ''deadline'', ''timeline'', ''goals'', ''product'']"

definition extractBotMetadata :: "meeting_data option \<Rightarrow> bot_metadata" where
  "extractBotMetadata apiResponse =
     (case apiResponse of
        None \<Rightarrow> \<lparr>md_name = None, md_topics = None\<rparr>
      | Some data \<Rightarrow>
          (let transcriptText = join '' '' (map segment_text (transcripts data));
               found = filter (\<lambda>keyword. js_includes (toLowerCase transcriptText)
                                              (toLowerCase keyword)) commonKeywords
           in \<lparr>md_name = Some (bot_name data),
                md_topics = (if length found > 0 then Some found else None)\<rparr>))"

text \<open>
  The world a tool runs in. The store of recent bots is a parameter: \<open>'db\<close> is its state
  and \<open>trackBot\<close> its write, which returns the new state or throws (\<open>Inl\<close> the error).
  \<open>apiRequest\<close> answers the request for the meeting data of a bot (given the API key and the
  bot id) the same way throughout one call of a tool; \<open>Inl\<close> is the message of the exception
  it throws. \<open>formatTime\<close> is the formatter of the search tools.
\<close>

record 'db env =
  envApiKey :: "string option"
  configApiKey :: "string option"
  apiRequest :: "string \<Rightarrow> string \<Rightarrow> string + meeting_data option"
  formatTime :: "int \<Rightarrow> string"
  trackBot :: "'db \<Rightarrow> string \<Rightarrow> bot_metadata \<Rightarrow> string + 'db"

definition truthy :: "string option \<Rightarrow> bool" where
  "truthy v = (case v of None \<Rightarrow> False | Some s \<Rightarrow> s \<noteq> [])"

definition getApiKeyWithFallbacks :: "'db env \<Rightarrow> session option \<Rightarrow> string option" where
  "getApiKeyWithFallbacks e sess =
     (if truthy (map_option apiKey sess) then map_option apiKey sess
      else if truthy (envApiKey e) then envApiKey e
      else if truthy (configApiKey e) then configApiKey e
      else None)"

definition createValidSession :: "'db env \<Rightarrow> session option \<Rightarrow> session option" where
  "createValidSession e sess =
     (case getApiKeyWithFallbacks e sess of
        None \<Rightarrow> None
      | Some key \<Rightarrow> Some \<lparr>apiKey = key, recentBotIds = None\<rparr>)"

text \<open>
  \<open>updateRecentBots\<close> returns the session and the store as it leaves them. Its own
  \<open>try\<close>/\<open>catch\<close> swallows a failure of the write; the list of the session is
  updated before the write is attempted.
\<close>

definition updateRecentBots ::
  "'db env \<Rightarrow> session option \<Rightarrow> 'db \<Rightarrow> string \<Rightarrow> bot_metadata option
   \<Rightarrow> session option \<times> 'db" where
  "updateRecentBots e sess db bid botMetadata =
     (case sess of
        None \<Rightarrow> (None, db)
      | Some s \<Rightarrow>
          (let ids0 = (case recentBotIds s of None \<Rightarrow> [] | Some ids \<Rightarrow> ids);
               ids1 = bid # filter (\<lambda>id. id \<noteq> bid) ids0;
               ids2 = (if length ids1 > 5 then take 5 ids1 else ids1);
               s' = s\<lparr>recentBotIds := Some ids2\<rparr>
           in case botMetadata of
                None \<Rightarrow> (Some s', db)
              | Some metadata \<Rightarrow>
                  (case trackBot e db bid metadata of
                     Inl error \<Rightarrow> (Some s', db)
                   | Inr db' \<Rightarrow> (Some s', db'))))"

section \<open>Results of the search tools\<close>

text \<open>
  A tool returns a plain string or a list of text blocks (with the \<open>isError\<close> flag).
  An exception inside a tool is \<open>Inl\<close> of its message until the enclosing \<open>catch\<close>
  turns it into the tool's error text.
\<close>

datatype tool_result = Text string | Content "string list" bool

definition dq :: string where
  "dq = [CHR 0x22]"

definition nl :: string where
  "nl = [CHR 0x0A]"

definition show_int :: "int \<Rightarrow> string" where
  "show_int i = (if i < 0 then ''-'' @ show_nat (nat (- i)) else show_nat (nat i))"

definition authenticationFailed :: tool_result where
  "authenticationFailed =
     Content [''Authentication failed. Please configure your API key in Claude Desktop settings or provide it directly.'']
       True"

text \<open>The messages of the type errors raised on an answer that lacks a part.\<close>

definition typeError_bot_data :: string where
  "typeError_bot_data = ''Cannot read properties of undefined (reading 'transcripts')''"

definition typeError_words :: string where
  "typeError_words = ''Cannot read properties of undefined (reading 'map')''"

fun try_map :: "('a \<Rightarrow> string + 'b) \<Rightarrow> 'a list \<Rightarrow> string + 'b list" where
  "try_map f [] = Inr []"
| "try_map f (x # xs) =
     (case f x of
        Inl e \<Rightarrow> Inl e
      | Inr y \<Rightarrow> (case try_map f xs of Inl e \<Rightarrow> Inl e | Inr ys \<Rightarrow> Inr (y # ys)))"

fun try_filter :: "('a \<Rightarrow> string + bool) \<Rightarrow> 'a list \<Rightarrow> string + 'a list" where
  "try_filter p [] = Inr []"
| "try_filter p (x # xs) =
     (case p x of
        Inl e \<Rightarrow> Inl e
      | Inr b \<Rightarrow>
          (case try_filter p xs of
             Inl e \<Rightarrow> Inl e
           | Inr ys \<Rightarrow> Inr (if b then x # ys else ys)))"

text \<open>\<open>transcript.words.map(w => w.text).join(" ")\<close>, which throws without \<open>words\<close>.\<close>

definition words_text :: "transcript \<Rightarrow> string + string" where
  "words_text t = (case words t of None \<Rightarrow> Inl typeError_words | Some ws \<Rightarrow> Inr (join '' '' ws))"

text \<open>\<open>mp4.split("?")[0]\<close>\<close>

definition videoBaseUrl :: "meeting_data \<Rightarrow> string" where
  "videoBaseUrl data = takeWhile (\<lambda>c. c \<noteq> CHR ''?'') (mp4 data)"

section \<open>\<open>searchTranscriptTool\<close>\<close>

text \<open>\<open>`[${formatTime(t.start_time)}] ${t.speaker}: ${text}`\<close>\<close>

definition result_line :: "(int \<Rightarrow> string) \<Rightarrow> transcript \<Rightarrow> string + string" where
  "result_line fmt t =
     (case words_text t of
        Inl e \<Rightarrow> Inl e
      | Inr text \<Rightarrow> Inr (''['' @ fmt (start_time t) @ ''] '' @ speaker t @ '': '' @ text))"

definition searchTranscript_results ::
  "(int \<Rightarrow> string) \<Rightarrow> meeting_data option \<Rightarrow> string \<Rightarrow> string + tool_result" where
  "searchTranscript_results fmt response query =
     (case response of
        None \<Rightarrow> Inl typeError_bot_data
      | Some data \<Rightarrow>
          (case try_filter
                  (\<lambda>t. case words_text t of
                          Inl e \<Rightarrow> Inl e
                        | Inr text \<Rightarrow> Inr (js_includes (toLowerCase text) (toLowerCase query)))
                  (transcripts data) of
             Inl e \<Rightarrow> Inl e
           | Inr results \<Rightarrow>
               if length results = 0
               then Inr (Text (''No results found for '' @ dq @ query @ dq))
               else (case try_map (result_line fmt) results of
                       Inl e \<Rightarrow> Inl e
                     | Inr formattedResults \<Rightarrow>
                         Inr (Text (''Found '' @ show_nat (length results) @ '' results for ''
                                    @ dq @ query @ dq @ '':'' @ nl @ nl
                                    @ join (nl @ nl) formattedResults)))))"

text \<open>
  The tool: its result, with the session and the store as the call leaves them.
\<close>

definition searchTranscriptTool ::
  "'db env \<Rightarrow> session option \<Rightarrow> 'db \<Rightarrow> string \<Rightarrow> string
   \<Rightarrow> tool_result \<times> session option \<times> 'db" where
  "searchTranscriptTool e sess db bid query =
     (case createValidSession e sess of
        None \<Rightarrow> (authenticationFailed, sess, db)
      | Some validSession \<Rightarrow>
          (case apiRequest e (apiKey validSession) bid of
             Inl message \<Rightarrow> (Text (''Error searching transcripts: '' @ message), sess, db)
           | Inr response \<Rightarrow>
               (case updateRecentBots e sess db bid (Some (extractBotMetadata response)) of
                  (sess', db') \<Rightarrow>
                    (case searchTranscript_results (formatTime e) response query of
                       Inl message \<Rightarrow>
                         (Text (''Error searching transcripts: '' @ message), sess', db')
                     | Inr result \<Rightarrow> (result, sess', db')))))"

section \<open>\<open>searchVideoSegmentTool\<close>\<close>

record segment_args =
  vs_startTime :: "int option"
  vs_endTime :: "int option"
  vs_speaker :: "string option"

text \<open>The speakers of the meeting, trimmed, in the order of their first appearance.\<close>

definition allSpeakers :: "transcript list \<Rightarrow> string list" where
  "allSpeakers ts = unique_in_order (map (\<lambda>t. trim (speaker t)) (filter (\<lambda>t. speaker t \<noteq> []) ts))"

definition in_time_range :: "int option \<Rightarrow> int option \<Rightarrow> transcript \<Rightarrow> bool" where
  "in_time_range startT endT t =
     (let endTime = (case end_time t of Some x \<Rightarrow> x | None \<Rightarrow> start_time t + 5)
      in if (case startT of Some a \<Rightarrow> start_time t < a | None \<Rightarrow> False) then False
         else if (case endT of Some b \<Rightarrow> endTime > b | None \<Rightarrow> False) then False
         else True)"

text \<open>\<open>s.split(' ')[0]\<close>\<close>

definition first_name :: "string \<Rightarrow> string" where
  "first_name s = takeWhile (\<lambda>c. c \<noteq> CHR '' '') s"

definition fuzzy_speaker :: "string \<Rightarrow> string \<Rightarrow> bool" where
  "fuzzy_speaker speakerLower s =
     (js_includes (toLowerCase s) speakerLower
      \<or> js_includes speakerLower (first_name (toLowerCase s)))"

definition filter_by_speaker :: "string \<Rightarrow> transcript list \<Rightarrow> transcript list \<Rightarrow> transcript list" where
  "filter_by_speaker spk ts filtered =
     (let speakerLower = toLowerCase spk;
          exactMatch = find (\<lambda>s. toLowerCase s = speakerLower) (allSpeakers ts)
      in if truthy exactMatch
         then filter (\<lambda>t. toLowerCase (speaker t) = speakerLower) filtered
         else
           (let matchingSpeakers = filter (fuzzy_speaker speakerLower) (allSpeakers ts)
            in if length matchingSpeakers > 0
               then filter (\<lambda>t. List.member matchingSpeakers (speaker t)) filtered
               else filter (\<lambda>t. js_includes (toLowerCase (speaker t)) speakerLower) filtered))"

definition filteredTranscripts :: "segment_args \<Rightarrow> transcript list \<Rightarrow> transcript list" where
  "filteredTranscripts args ts =
     (let byTime =
            (if vs_startTime args \<noteq> None \<or> vs_endTime args \<noteq> None
             then filter (in_time_range (vs_startTime args) (vs_endTime args)) ts
             else ts)
      in case vs_speaker args of
           None \<Rightarrow> byTime
         | Some spk \<Rightarrow> if spk \<noteq> [] then filter_by_speaker spk ts byTime else byTime)"

text \<open>
  \<open>`[${formatTime(t.start_time)}] ${t.speaker}: ${text}\nSegment link: ${base}?t=${Math.floor(t.start_time)}`\<close>
\<close>

definition segment_line :: "(int \<Rightarrow> string) \<Rightarrow> string \<Rightarrow> transcript \<Rightarrow> string + string" where
  "segment_line fmt base t =
     (case result_line fmt t of
        Inl e \<Rightarrow> Inl e
      | Inr line \<Rightarrow> Inr (line @ nl @ ''Segment link: '' @ base @ ''?t='' @ show_int (start_time t)))"

definition noSegmentsFound :: tool_result where
  "noSegmentsFound = Content [''No matching video segments found based on your criteria.''] False"

definition searchVideoSegment_results ::
  "(int \<Rightarrow> string) \<Rightarrow> meeting_data option \<Rightarrow> segment_args \<Rightarrow> string + tool_result" where
  "searchVideoSegment_results fmt response args =
     (case response of
        None \<Rightarrow> Inl typeError_bot_data
      | Some data \<Rightarrow>
          (let filtered = filteredTranscripts args (transcripts data)
           in if length filtered = 0 then Inr noSegmentsFound
              else
                (case try_map (segment_line fmt (videoBaseUrl data)) filtered of
                   Inl e \<Rightarrow> Inl e
                 | Inr formattedSegments \<Rightarrow>
                     Inr (Content
                       [''Found '' @ show_nat (length filtered) @ '' segments from ''
                          @ fmt (start_time (hd filtered)) @ '' to ''
                          @ fmt (start_time (last filtered)) @ '' in meeting ''
                          @ dq @ bot_name data @ dq @ ''.'',
                        ''Watch from beginning of segment: '' @ videoBaseUrl data @ ''?t=''
                          @ show_int (start_time (hd filtered)),
                        ''Individual segments:'' @ nl @ nl @ join (nl @ nl) formattedSegments]
                       False))))"

definition searchVideoSegmentTool ::
  "'db env \<Rightarrow> session option \<Rightarrow> 'db \<Rightarrow> string \<Rightarrow> segment_args
   \<Rightarrow> tool_result \<times> session option \<times> 'db" where
  "searchVideoSegmentTool e sess db bid args =
     (case createValidSession e sess of
        None \<Rightarrow> (authenticationFailed, sess, db)
      | Some validSession \<Rightarrow>
          (case apiRequest e (apiKey validSession) bid of
             Inl message \<Rightarrow> (Text (''An error occurred during the search: '' @ message), sess, db)
           | Inr response \<Rightarrow>
               (case updateRecentBots e sess db bid (Some (extractBotMetadata response)) of
                  (sess', db') \<Rightarrow>
                    (case searchVideoSegment_results (formatTime e) response args of
                       Inl message \<Rightarrow>
                         (Text (''An error occurred during the search: '' @ message), sess', db')
                     | Inr result \<Rightarrow> (result, sess', db')))))"


section \<open>\<open>intelligentSearchTool\<close>: what the query implies\<close>

record search_filters =
  filter_speaker :: "string option"
  filter_startTime :: "int option"
  filter_endTime :: "int option"

record time_range =
  startTime :: "int option"
  endTime :: "int option"

text \<open>The range and the speaker as the structured filters give them.\<close>

definition filters_timeRange :: "search_filters option \<Rightarrow> time_range" where
  "filters_timeRange filters =
     (case filters of
        None \<Rightarrow> \<lparr>startTime = None, endTime = None\<rparr>
      | Some f \<Rightarrow> \<lparr>startTime = filter_startTime f, endTime = filter_endTime f\<rparr>)"

definition filters_speaker :: "search_filters option \<Rightarrow> string option" where
  "filters_speaker filters =
     (case filters of
        None \<Rightarrow> None
      | Some f \<Rightarrow> if truthy (filter_speaker f) then filter_speaker f else None)"

definition digits :: rx where
  "digits = Plus (Sym is_digit)"

definition spaces :: rx where
  "spaces = Plus (Sym is_space)"

text \<open>\<open>(\d+)(?::(\d+))?\<close> with its two groups numbered \<open>g\<close> and \<open>g + 1\<close>.\<close>

definition clock :: "nat \<Rightarrow> rx" where
  "clock g = Cat (Grp g digits) (Opt (Cat (Lit '':'') (Grp (Suc g) digits)))"

datatype pattern_type = Range | After | Before | Around

definition timePatterns :: "(rx \<times> pattern_type) list" where
  "timePatterns =
     [(cats [Lit ''between'', spaces, clock 1, spaces, alts [''and'', ''to''], spaces, clock 3],
       Range),
      (cats [Lit ''after'', spaces, clock 1], After),
      (cats [Lit ''before'', spaces, clock 1], Before),
      (cats [Lit ''around'', spaces, clock 1], Around)]"

definition digit_value :: "char \<Rightarrow> nat" where
  "digit_value c = length (takeWhile (\<lambda>d. d \<noteq> c) ''0123456789'')"

text \<open>
  \<open>parseInt\<close> of a string of decimal digits: its value (JavaScript rounds a value
  beyond \<open>2 ^ 53\<close> to the nearest number it can represent).
\<close>

definition parseInt :: "string \<Rightarrow> int" where
  "parseInt s = int (foldl (\<lambda>n c. 10 * n + digit_value c) 0 s)"

text \<open>\<open>parseInt(match[g]) * 60 + (match[g + 1] ? parseInt(match[g + 1]) : 0)\<close>\<close>

definition clock_seconds :: "caps \<Rightarrow> nat \<Rightarrow> int" where
  "clock_seconds m g =
     (case map_of m g of
        None \<Rightarrow> 0
      | Some minutes \<Rightarrow>
          parseInt minutes * 60
          + (case map_of m (Suc g) of
               None \<Rightarrow> 0
             | Some seconds \<Rightarrow> if seconds \<noteq> [] then parseInt seconds else 0))"

definition applyTimePattern :: "pattern_type \<Rightarrow> caps \<Rightarrow> time_range \<Rightarrow> time_range" where
  "applyTimePattern ty m timeRange =
     (if ty = Range \<and> truthy (map_of m 1) \<and> truthy (map_of m 3)
      then timeRange\<lparr>startTime := Some (clock_seconds m 1), endTime := Some (clock_seconds m 3)\<rparr>
      else if ty = After \<and> truthy (map_of m 1)
      then timeRange\<lparr>startTime := Some (clock_seconds m 1)\<rparr>
      else if ty = Before \<and> truthy (map_of m 1)
      then timeRange\<lparr>endTime := Some (clock_seconds m 1)\<rparr>
      else if ty = Around \<and> truthy (map_of m 1)
      then timeRange\<lparr>startTime := Some (max 0 (clock_seconds m 1 - 60)),
                       endTime := Some (clock_seconds m 1 + 60)\<rparr>
      else timeRange)"

text \<open>The loop over the patterns stops at the first one that matches the query.\<close>

fun extractTimeRange :: "(rx \<times> pattern_type) list \<Rightarrow> string \<Rightarrow> time_range \<Rightarrow> time_range" where
  "extractTimeRange [] query timeRange = timeRange"
| "extractTimeRange ((regex, ty) # patterns) query timeRange =
     (case rx_exec regex query of
        Some (i, n, m) \<Rightarrow> applyTimePattern ty m timeRange
      | None \<Rightarrow> extractTimeRange patterns query timeRange)"

text \<open>
  The range used for filtering: the filters' values first, then whatever the query
  implies written over them.
\<close>

definition resolveTimeRange :: "string \<Rightarrow> search_filters option \<Rightarrow> time_range" where
  "resolveTimeRange query filters = extractTimeRange timePatterns query (filters_timeRange filters)"

text \<open>\<open>[A-Z][a-z]+(?:\s+[A-Z][a-z]+)?\<close>; under the \<open>i\<close> flag both classes are the letters.\<close>

definition name_word :: rx where
  "name_word = Cat (Sym is_letter) (Plus (Sym is_letter))"

definition person_name :: rx where
  "person_name = Cat name_word (Opt (Cat spaces name_word))"

definition speakerPatterns :: "rx list" where
  "speakerPatterns =
     [cats [alts [''what'', ''when'', ''where'', ''how'', ''why''], Lit '' did '', Grp 1 person_name,
            Lit '' '', alts [''say'', ''talk'', ''speak'', ''mention'', ''discuss'']],
      cats [alts [''statements'', ''comments'', ''opinions'', ''thoughts''], Lit '' '',
            alts [''from'', ''by''], Lit '' '', Grp 1 person_name],
      cats [Grp 1 person_name, Lit [CHR 0x27, CHR ''s''], Lit '' '',
            alts [''statements'', ''comments'', ''opinions'', ''thoughts'']],
      cats [Lit ''when '', Grp 1 person_name, Lit '' '',
            alts [''spoke'', ''said'', ''mentioned'', ''discussed'']]]"

fun extractSpeaker :: "rx list \<Rightarrow> string \<Rightarrow> string option" where
  "extractSpeaker [] query = None"
| "extractSpeaker (pattern # patterns) query =
     (case rx_exec pattern query of
        Some (i, n, m) \<Rightarrow>
          if truthy (map_of m 1) then map_of m 1 else extractSpeaker patterns query
      | None \<Rightarrow> extractSpeaker patterns query)"

text \<open>The speaker used for filtering: the query is consulted only without a filter.\<close>

definition resolveSpeaker :: "string \<Rightarrow> search_filters option \<Rightarrow> string option" where
  "resolveSpeaker query filters =
     (if truthy (filters_speaker filters) then filters_speaker filters
      else extractSpeaker speakerPatterns query)"

text \<open>
  \<open>s.replace(regex, '')\<close> with the \<open>g\<close> flag: every match, from left to right and
  without overlap, is removed; after an empty match the scan moves on by one character.
\<close>

function remove_all :: "rx \<Rightarrow> string \<Rightarrow> string" where
  "remove_all r [] = []"
| "remove_all r (c # cs) =
     (case run r (c # cs) [] of
        [] \<Rightarrow> c # remove_all r cs
      | (rest, m) # _ \<Rightarrow>
          if length rest < length (c # cs) then remove_all r rest else c # remove_all r cs)"
  by pat_completeness auto
termination
  by (relation "measure (\<lambda>(r, s). length s)") auto

definition hex_or_dash :: "char \<Rightarrow> bool" where
  "hex_or_dash c = (c \<in> set ''abcdefABCDEF0123456789-'')"

definition space_or_colon :: "char \<Rightarrow> bool" where
  "space_or_colon c = (is_space c \<or> c = CHR '':'')"

definition filterPhrases :: "rx list" where
  "filterPhrases =
     [cats [Lit ''in'', spaces,
            alts [''sales'', ''psychiatric'', ''standup'', ''interview'', ''product'', ''planning''],
            spaces, Lit ''meeting'', Opt (Lit ''s'')],
      Alt (cats [Lit ''from'', spaces, Lit ''yesterday''])
        (Alt (cats [Lit ''last'', spaces, alts [''week'', ''day'', ''month'']])
             (cats [Lit ''this'', spaces, alts [''month'', ''quarter'']])),
      cats [Lit ''where'', spaces, person_name, spaces,
            alts [''speak'', ''said'', ''talk'', ''mention'']],
      cats [alts [''meeting'', ''bot''], spaces, alts [''id'', ''uuid''],
            Plus (Sym space_or_colon), cats (replicate 8 (Sym hex_or_dash)),
            Star (Sym hex_or_dash)],
      cats [Lit ''between'', spaces, digits, Opt (Cat (Lit '':'') digits), spaces,
            alts [''and'', ''to''], spaces, digits, Opt (Cat (Lit '':'') digits)],
      cats [alts [''after'', ''before'', ''around''], spaces, digits, Opt (Cat (Lit '':'') digits)],
      cats [alts [''what'', ''when'', ''where'', ''how'', ''why''], Lit '' did '', person_name,
            Lit '' '', alts [''say'', ''talk'', ''speak'', ''mention'', ''discuss'']],
      cats [alts [''statements'', ''comments'', ''opinions'', ''thoughts''], Lit '' '',
            alts [''from'', ''by''], Lit '' '', person_name],
      cats [person_name, Lit [CHR 0x27, CHR ''s''], Lit '' '',
            alts [''statements'', ''comments'', ''opinions'', ''thoughts'']],
      cats [Lit ''when '', person_name, Lit '' '',
            alts [''spoke'', ''said'', ''mentioned'', ''discussed'']]]"

definition extractSearchTerms :: "string \<Rightarrow> string" where
  "extractSearchTerms query =
     (let cleaned = trim (foldl (\<lambda>s r. remove_all r s) query filterPhrases)
      in if cleaned = [] then query else cleaned)"


section \<open>\<open>intelligentSearchTool\<close>: the tiers\<close>

text \<open>
  The test made on the result of the segment search: an object with a first text block
  that does not say that nothing was found.
\<close>

definition has_segments :: "tool_result \<Rightarrow> bool" where
  "has_segments r =
     (case r of
        Text s \<Rightarrow> False
      | Content blocks isError \<Rightarrow>
          (case blocks of
             [] \<Rightarrow> False
           | first # _ \<Rightarrow> \<not> js_includes first ''No matching video segments found''))"

text \<open>
  A tier throws (\<open>Inl\<close>), returns the tool's result (\<open>Inr (Some r)\<close>) or falls
  through to the next tier (\<open>Inr None\<close>). The state a tier passes on is the session
  object handed to the inner tools and the store.
\<close>

type_synonym tier_outcome = "string + tool_result option"

definition or_else ::
  "tier_outcome \<times> 's \<Rightarrow> ('s \<Rightarrow> tier_outcome \<times> 's) \<Rightarrow> tier_outcome \<times> 's" where
  "or_else a next_tier =
     (case a of
        (Inr None, st) \<Rightarrow> next_tier st
      | (Inr (Some r), st) \<Rightarrow> (Inr (Some r), st)
      | (Inl message, st) \<Rightarrow> (Inl message, st))"

definition segment_blocks ::
  "(int \<Rightarrow> string) \<Rightarrow> meeting_data \<Rightarrow> string \<Rightarrow> transcript list \<Rightarrow> tier_outcome" where
  "segment_blocks fmt data headline found =
     (case try_map (segment_line fmt (videoBaseUrl data)) found of
        Inl e \<Rightarrow> Inl e
      | Inr formattedSegments \<Rightarrow>
          Inr (Some (Content
            [headline,
             ''Watch from beginning: '' @ videoBaseUrl data @ ''?t='' @ show_int (start_time (hd found)),
             ''Individual segments:'' @ nl @ nl @ join (nl @ nl) formattedSegments]
            False)))"

definition speakerMatch :: "string \<Rightarrow> transcript list \<Rightarrow> transcript list" where
  "speakerMatch spk ts = filter (\<lambda>t. fuzzy_speaker (toLowerCase spk) (speaker t)) ts"

definition tier1_results ::
  "(int \<Rightarrow> string) \<Rightarrow> meeting_data option \<Rightarrow> string \<Rightarrow> string \<Rightarrow> tier_outcome" where
  "tier1_results fmt botData spk searchTerms =
     (case botData of
        None \<Rightarrow> Inl typeError_bot_data
      | Some data \<Rightarrow>
          (case try_filter
                  (\<lambda>t. case words_text t of
                          Inl e \<Rightarrow> Inl e
                        | Inr text \<Rightarrow>
                            Inr (list_ex (\<lambda>term. js_includes (toLowerCase text) term)
                                   (split_whitespace (toLowerCase searchTerms))))
                  (speakerMatch spk (transcripts data)) of
             Inl e \<Rightarrow> Inl e
           | Inr filteredByTerms \<Rightarrow>
               if length filteredByTerms > 0
               then segment_blocks fmt data
                      (''Found '' @ show_nat (length filteredByTerms) @ '' segments where '' @ spk
                       @ '' mentioned '' @ dq @ searchTerms @ dq @ '' in meeting ''
                       @ dq @ bot_name data @ dq @ ''.'')
                      filteredByTerms
               else Inr None))"

definition tier1 ::
  "'db env \<Rightarrow> string \<Rightarrow> meeting_data option \<Rightarrow> string option \<Rightarrow> segment_args \<Rightarrow> string
   \<Rightarrow> session option \<times> 'db \<Rightarrow> tier_outcome \<times> session option \<times> 'db" where
  "tier1 e bid botData spk segArgs searchTerms st =
     (case st of (vsess, db) \<Rightarrow>
        (case spk of
           None \<Rightarrow> (Inr None, st)
         | Some name \<Rightarrow>
             if name \<noteq> [] \<and> trim searchTerms \<noteq> []
             then (case searchVideoSegmentTool e vsess db bid segArgs of
                     (videoSegmentResult, st') \<Rightarrow>
                       if has_segments videoSegmentResult
                       then (tier1_results (formatTime e) botData name searchTerms, st')
                       else (Inr None, st'))
             else (Inr None, st)))"

definition tier2 ::
  "'db env \<Rightarrow> string \<Rightarrow> string option \<Rightarrow> segment_args
   \<Rightarrow> session option \<times> 'db \<Rightarrow> tier_outcome \<times> session option \<times> 'db" where
  "tier2 e bid spk segArgs st =
     (case st of (vsess, db) \<Rightarrow>
        if truthy spk
        then (case searchVideoSegmentTool e vsess db bid segArgs of
                (speakerResult, st') \<Rightarrow>
                  if has_segments speakerResult then (Inr (Some speakerResult), st')
                  else (Inr None, st'))
        else (Inr None, st))"

definition tier3_results ::
  "(int \<Rightarrow> string) \<Rightarrow> meeting_data option \<Rightarrow> string \<Rightarrow> tier_outcome" where
  "tier3_results fmt botData searchTerms =
     (let searchWords = filter (\<lambda>w. length w > 2) (split_whitespace (toLowerCase searchTerms))
      in if length searchWords > 1
         then
           (case botData of
              None \<Rightarrow> Inl typeError_bot_data
            | Some data \<Rightarrow>
                (case try_filter
                        (\<lambda>t. case words_text t of
                                Inl e \<Rightarrow> Inl e
                              | Inr text \<Rightarrow>
                                  Inr (length (filter (\<lambda>term. js_includes (toLowerCase text) term)
                                                 searchWords)
                                       \<ge> max 1 (length searchWords div 2)))
                        (transcripts data) of
                   Inl e \<Rightarrow> Inl e
                 | Inr multiTermResults \<Rightarrow>
                     if length multiTermResults > 0
                     then segment_blocks fmt data
                            (''Found '' @ show_nat (length multiTermResults)
                             @ '' segments related to '' @ dq @ searchTerms @ dq
                             @ '' in meeting '' @ dq @ bot_name data @ dq @ ''.'')
                            multiTermResults
                     else Inr None))
         else Inr None)"

definition tier3 ::
  "'db env \<Rightarrow> meeting_data option \<Rightarrow> string
   \<Rightarrow> session option \<times> 'db \<Rightarrow> tier_outcome \<times> session option \<times> 'db" where
  "tier3 e botData searchTerms st =
     (if trim searchTerms \<noteq> [] then (tier3_results (formatTime e) botData searchTerms, st)
      else (Inr None, st))"

text \<open>Tier 4 returns whatever the transcript search returns.\<close>

definition tier4 ::
  "'db env \<Rightarrow> string \<Rightarrow> string
   \<Rightarrow> session option \<times> 'db \<Rightarrow> tier_outcome \<times> session option \<times> 'db" where
  "tier4 e bid searchTerms st =
     (case st of (vsess, db) \<Rightarrow>
        if trim searchTerms \<noteq> []
        then (case searchTranscriptTool e vsess db bid searchTerms of
                (result, st') \<Rightarrow> (Inr (Some result), st'))
        else (Inr None, st))"

definition tier5 ::
  "'db env \<Rightarrow> string \<Rightarrow> segment_args
   \<Rightarrow> session option \<times> 'db \<Rightarrow> (string + tool_result) \<times> session option \<times> 'db" where
  "tier5 e bid segArgs st =
     (case st of (vsess, db) \<Rightarrow>
        (case searchVideoSegmentTool e vsess db bid segArgs of
           (result, st') \<Rightarrow> (Inr result, st')))"

text \<open>The last tier always returns.\<close>

definition or_finally ::
  "tier_outcome \<times> 's \<Rightarrow> ('s \<Rightarrow> (string + tool_result) \<times> 's) \<Rightarrow> (string + tool_result) \<times> 's" where
  "or_finally a last_tier =
     (case a of
        (Inr None, st) \<Rightarrow> last_tier st
      | (Inr (Some r), st) \<Rightarrow> (Inr r, st)
      | (Inl message, st) \<Rightarrow> (Inl message, st))"

record search_args =
  sa_query :: string
  sa_botId :: string
  sa_filters :: "search_filters option"

definition search_tiers ::
  "'db env \<Rightarrow> search_args \<Rightarrow> meeting_data option
   \<Rightarrow> session option \<times> 'db \<Rightarrow> (string + tool_result) \<times> session option \<times> 'db" where
  "search_tiers e args botData st =
     (let spk = resolveSpeaker (sa_query args) (sa_filters args);
          timeRange = resolveTimeRange (sa_query args) (sa_filters args);
          searchTerms = extractSearchTerms (sa_query args);
          segArgs = \<lparr>vs_startTime = startTime timeRange, vs_endTime = endTime timeRange,
                     vs_speaker = spk\<rparr>
      in or_finally
           (or_else
              (or_else
                 (or_else (tier1 e (sa_botId args) botData spk segArgs searchTerms st)
                    (tier2 e (sa_botId args) spk segArgs))
                 (tier3 e botData searchTerms))
              (tier4 e (sa_botId args) searchTerms))
           (tier5 e (sa_botId args) segArgs))"

text \<open>
  The inner tools get the valid session object, not the caller's; the caller's session
  is touched by the tool's own call of \<open>updateRecentBots\<close> only. The tool also
  obtains the store at its start (\<open>getTinyDb()\<close>) without using it; obtaining the store
  does not throw, its constructor catching the errors of loading, so the call leaves no
  trace here. The arguments \<open>maxResults\<close>, \<open>includeContext\<close> and \<open>sortBy\<close> are not
  read by the code and are left out.
\<close>

definition intelligentSearchTool ::
  "'db env \<Rightarrow> session option \<Rightarrow> 'db \<Rightarrow> search_args
   \<Rightarrow> tool_result \<times> session option \<times> 'db" where
  "intelligentSearchTool e sess db args =
     (case createValidSession e sess of
        None \<Rightarrow> (authenticationFailed, sess, db)
      | Some validSession \<Rightarrow>
          (case apiRequest e (apiKey validSession) (sa_botId args) of
             Inl message \<Rightarrow>
               (Text (''Error searching meeting '' @ sa_botId args @ '': '' @ message), sess, db)
           | Inr botData \<Rightarrow>
               (case updateRecentBots e sess db (sa_botId args)
                       (Some (extractBotMetadata botData)) of
                  (sess', db0) \<Rightarrow>
                    (case search_tiers e args botData (Some validSession, db0) of
                       (Inl message, vsess, db') \<Rightarrow>
                         (Text (''Error searching meeting '' @ sa_botId args @ '': '' @ message),
                          sess', db')
                     | (Inr result, vsess, db') \<Rightarrow> (result, sess', db')))))"


section \<open>Predicates and inputs used in the proofs\<close>

text \<open>The invariant of the chunking loop after the segments \<open>xs\<close> (at least one).\<close>

definition chunk_inv ::
  "int \<Rightarrow> transcript list \<Rightarrow> transcript list list \<times> transcript list \<times> int \<Rightarrow> bool" where
  "chunk_inv d xs st =
     (case st of (chunks, cur, t0) \<Rightarrow>
        concat chunks @ cur = xs \<and> cur \<noteq> [] \<and> [] \<notin> set chunks \<and> t0 = start_time (hd cur)
        \<and> (\<forall>c \<in> set (chunks @ [cur]). \<forall>s \<in> set (tl c). start_time s - start_time (hd c) \<le> d)
        \<and> successively (\<lambda>a b. start_time (hd b) - start_time (hd a) > d) (chunks @ [cur]))"

text \<open>
  The state of the list of recent bots that every call of \<open>updateRecentBots\<close> leaves;
  \<open>dist\<close> tells whether the list was free of duplicates to begin with.
\<close>

definition recent_ok :: "bool \<Rightarrow> string \<Rightarrow> session option \<Rightarrow> bool" where
  "recent_ok dist bid sess =
     (case sess of
        None \<Rightarrow> False
      | Some s \<Rightarrow>
          (case recentBotIds s of
             None \<Rightarrow> False
           | Some ids \<Rightarrow>
               (dist \<longrightarrow> distinct ids) \<and> length ids \<le> 5 \<and> ids \<noteq> [] \<and> hd ids = bid))"

definition key_of :: "session option \<times> 'a \<Rightarrow> string option" where
  "key_of st = map_option apiKey (fst st)"

text \<open>
  The description rule read with one table of categories, the next-steps language
  being the category that scores 3: the reading under which the rule is compared with
  \<open>determineDescription\<close>.
\<close>

definition described_by_score_table :: "string \<Rightarrow> int \<Rightarrow> string" where
  "described_by_score_table text imp =
     (if rx_test summary_terms text then ''Summary or conclusion''
      else if rx_test next_steps_terms text then ''Discussion about next steps''
      else if rx_test decision_terms text then ''Decision point''
      else if rx_test problem_terms text then ''Problem discussion''
      else if rx_test solution_terms text then ''Solution discussion''
      else if imp > 5 then ''Highly important discussion''
      else if imp > 3 then ''Important point''
      else ''Notable discussion'')"

text \<open>Inputs of the worked examples.\<close>

definition segment :: "int \<Rightarrow> string \<Rightarrow> string list \<Rightarrow> transcript" where
  "segment t spk ws = \<lparr>speaker = spk, start_time = t, end_time = None, words = Some ws\<rparr>"

definition moment :: "int \<Rightarrow> int \<Rightarrow> candidate" where
  "moment t imp =
     \<lparr>timestamp = t, cand_speaker = ''A'', cand_text = ''text'', importance = imp,
       cand_type = ContentSegment, description = ''Notable discussion''\<rparr>"

definition scenario :: "transcript list" where
  "scenario =
     [segment 0 ''A'' [''Let's'', ''start'', ''the'', ''meeting''],
      segment 20 ''B'' [''I'', ''think'', ''the'', ''budget'', ''is'', ''a'', ''key'', ''issue'',
                        ''we'', ''must'', ''resolve''],
      segment 600 ''A'' [''In'', ''conclusion,'', ''thanks'', ''everyone'']]"

definition scenario_args :: km_args where
  "scenario_args =
     \<lparr>botId = ''bot-1'', meetingTitle = None, topics = None, maxMoments = 2,
       granularity = Medium, autoDetectTopics = True\<rparr>"

definition scenario_data :: meeting_data where
  "scenario_data = \<lparr>bot_name = ''Budget review'', mp4 = ''https://v.example/m.mp4'',
                     transcripts = scenario\<rparr>"

definition get_back :: transcript where
  "get_back =
     segment 5 ''A'' [''We'', ''will'', ''get'', ''back'', ''to'', ''you'', ''on'', ''this'', ''issue'']"

definition spaced :: "transcript list" where
  "spaced = map (\<lambda>t. segment t ''A'' [''ok'']) [0, 100, 300, 301, 500, 700]"

definition demo_meeting :: meeting_data where
  "demo_meeting =
     \<lparr>bot_name = ''Weekly sync'', mp4 = ''https://v.example/m.mp4?sig=1'',
       transcripts = [segment 0 ''Alice Smith'' [''hello'', ''world''],
                      segment 400 ''Bob'' [''the'', ''budget'', ''is'', ''fine'']]\<rparr>"

text \<open>A world whose store accepts every write, and one whose store rejects every write.\<close>

definition demo_env :: "unit env" where
  "demo_env =
     \<lparr>envApiKey = None, configApiKey = None,
       apiRequest = (\<lambda>key bid. Inr (Some demo_meeting)), formatTime = show_int,
       trackBot = (\<lambda>db bid metadata. Inr db)\<rparr>"

definition failing_store :: "unit \<Rightarrow> string \<Rightarrow> bot_metadata \<Rightarrow> string + unit" where
  "failing_store db bid metadata = Inl ''EACCES: permission denied''"

definition demo_session :: session where
  "demo_session = \<lparr>apiKey = ''key'', recentBotIds = None\<rparr>"

definition no_filters :: segment_args where
  "no_filters = \<lparr>vs_startTime = None, vs_endTime = None, vs_speaker = None\<rparr>"


definition twelve_topics :: "transcript list \<Rightarrow> string list" where
  "twelve_topics chunk =
     [''budget'', ''hiring'', ''roadmap'', ''pricing'', ''launch'', ''support'', ''security'',
      ''testing'', ''design'', ''billing'', ''metrics'', ''travel'']"

definition bob_meeting :: meeting_data where
  "bob_meeting =
     \<lparr>bot_name = ''Budget review'', mp4 = ''https://v.example/b.mp4'',
       transcripts = [segment 150 ''Bob'' [''budget'', ''approved''],
                      segment 400 ''Bob'' [''budget'', ''final'']]\<rparr>"

definition bob_env :: "unit env" where
  "bob_env =
     \<lparr>envApiKey = None, configApiKey = None,
       apiRequest = (\<lambda>key bid. Inr (Some bob_meeting)), formatTime = show_int,
       trackBot = (\<lambda>db bid metadata. Inr db)\<rparr>"

definition start_at_100 :: search_filters where
  "start_at_100 = \<lparr>filter_speaker = None, filter_startTime = Some 100, filter_endTime = None\<rparr>"

definition speaker_alice :: search_filters where
  "speaker_alice =
     \<lparr>filter_speaker = Some ''Alice'', filter_startTime = None, filter_endTime = None\<rparr>"

definition late_decision :: "transcript list" where
  "late_decision =
     [segment 0 ''A'' [''Good'', ''morning''],
      segment 300 ''B'' [''In'', ''conclusion,'', ''the'', ''key'', ''decision'', ''is'', ''made'']]"

definition late_decision_data :: meeting_data where
  "late_decision_data = \<lparr>bot_name = ''Planning'', mp4 = ''https://v.example/p.mp4'',
                           transcripts = late_decision\<rparr>"

definition one_moment :: km_args where
  "one_moment =
     \<lparr>botId = ''bot-2'', meetingTitle = None, topics = None, maxMoments = 1,
       granularity = Medium, autoDetectTopics = False\<rparr>"

definition kickoff :: "transcript list" where
  "kickoff =
     [segment 0 ''A'' [''We'', ''should'', ''begin''],
      segment 10 ''B'' [''This'', ''is'', ''the'', ''key'', ''decision'']]"

definition kickoff_data :: meeting_data where
  "kickoff_data = \<lparr>bot_name = ''Kickoff'', mp4 = ''https://v.example/k.mp4'',
                     transcripts = kickoff\<rparr>"

text \<open>Twenty words joined by no-break spaces, and a transcript with a segment without words.\<close>

definition no_break_text :: string where
  "no_break_text = join [CHR 0xA0] (replicate 20 ''ok'')"

definition quiet :: "transcript list" where
  "quiet = [segment 1 ''B'' [''ok''], get_back, segment 9 [] [no_break_text],
            \<lparr>speaker = ''C'', start_time = 12, end_time = None, words = None\<rparr>]"

text \<open>
  ``The \<open>m\<close> earliest of the survivors, in ascending order of timestamp'': the list \<open>out\<close>
  is strictly ascending in timestamp, holds \<open>m\<close> of the survivors (all when fewer survive),
  and every survivor it leaves out is later than each of its members.
\<close>

definition earliest_in_order :: "int \<Rightarrow> candidate list \<Rightarrow> candidate list \<Rightarrow> bool" where
  "earliest_in_order m survivors out =
     (sorted_wrt (<) (map timestamp out)
      \<and> length out = min (nat m) (length survivors)
      \<and> set out \<subseteq> set survivors
      \<and> (\<forall>x \<in> set out. \<forall>y \<in> set survivors. y \<notin> set out \<longrightarrow> timestamp x < timestamp y))"

text \<open>The content candidate of a segment that scores.\<close>

definition content_candidate :: "transcript \<Rightarrow> candidate" where
  "content_candidate t =
     \<lparr>timestamp = start_time t, cand_speaker = speaker_or_unknown t,
       cand_text = segment_text t, importance = importanceScore (segment_text t),
       cand_type = ContentSegment,
       description = determineDescription (segment_text t) (importanceScore (segment_text t))\<rparr>"


section \<open>Evaluation\<close>

text \<open>
  Lower-casing read off the bits of a character, for evaluating the patterns on
  concrete texts.
\<close>

lemma lower_char_code [code]:
  "lower_char (Char b0 b1 b2 b3 b4 b5 b6 b7) =
     (if b6 \<and> \<not> b5
         \<and> (if b7 then \<not> (b4 \<and> b2 \<and> b1 \<and> b0)
             else (b0 \<or> b1 \<or> b2 \<or> b3 \<or> b4) \<and> \<not> (b4 \<and> b3 \<and> (b2 \<or> (b1 \<and> b0))))
      then Char b0 b1 b2 b3 b4 True b6 b7
      else Char b0 b1 b2 b3 b4 b5 b6 b7)"
  by (cases b0; cases b1; cases b2; cases b3; cases b4; cases b5; cases b6; cases b7;
      simp add: lower_char_def char_of_def bit_0)

section \<open>Chunking\<close>

lemma successively_snoc:
  "successively P (xs @ [x]) \<longleftrightarrow> successively P xs \<and> (xs = [] \<or> P (last xs) x)"
  by (simp add: successively_append_iff)

lemma chunk_inv_first:
  "chunk_inv d [x] (chunk_step d ([], [], start_time x) x)"
  by (simp add: chunk_inv_def chunk_step_def)

lemma chunk_inv_step:
  assumes "chunk_inv d xs st"
  shows "chunk_inv d (xs @ [x]) (chunk_step d st x)"
proof -
  obtain chunks cur t0 where st: "st = (chunks, cur, t0)" by (cases st)
  from assms st have cur: "cur \<noteq> []" and cat: "concat chunks @ cur = xs"
    and ne: "[] \<notin> set chunks" and t0: "t0 = start_time (hd cur)"
    and within: "\<forall>c \<in> set (chunks @ [cur]). \<forall>s \<in> set (tl c). start_time s - start_time (hd c) \<le> d"
    and far: "successively (\<lambda>a b. start_time (hd b) - start_time (hd a) > d) (chunks @ [cur])"
    by (simp_all add: chunk_inv_def)
  show ?thesis
  proof (cases "start_time x - t0 \<le> d")
    case True
    have far': "successively (\<lambda>a b. start_time (hd b) - start_time (hd a) > d)
                  (chunks @ [cur @ [x]])"
      using far cur by (simp add: successively_snoc)
    from True cur cat ne t0 within far' show ?thesis
      by (auto simp: chunk_inv_def chunk_step_def st)
  next
    case False
    have far': "successively (\<lambda>a b. start_time (hd b) - start_time (hd a) > d)
                  ((chunks @ [cur]) @ [[x]])"
      using far False t0 by (subst successively_snoc) simp
    from False cur cat ne t0 within far' show ?thesis
      by (auto simp: chunk_inv_def chunk_step_def st)
  qed
qed

lemma chunk_inv_foldl:
  "xs \<noteq> [] \<Longrightarrow> chunk_inv d xs (foldl (chunk_step d) ([], [], start_time (hd xs)) xs)"
proof (induction xs rule: rev_induct)
  case Nil
  then show ?case by simp
next
  case (snoc x xs)
  show ?case
  proof (cases "xs = []")
    case True
    then show ?thesis using chunk_inv_first [of d x] by simp
  next
    case False
    with snoc have "chunk_inv d xs (foldl (chunk_step d) ([], [], start_time (hd xs)) xs)"
      by simp
    from chunk_inv_step [OF this, of x] False show ?thesis by simp
  qed
qed

lemma chunks_concat: "concat (groupTranscriptsIntoChunks ts d) = ts"
proof (cases ts)
  case Nil
  then show ?thesis by (simp add: groupTranscriptsIntoChunks_def)
next
  case (Cons t rest)
  obtain chunks cur t0
    where st: "foldl (chunk_step d) ([], [], start_time (hd ts)) ts = (chunks, cur, t0)"
    by (cases "foldl (chunk_step d) ([], [], start_time (hd ts)) ts")
  from chunk_inv_foldl [of ts d] Cons st have inv: "chunk_inv d ts (chunks, cur, t0)" by simp
  then show ?thesis
    using st Cons by (simp add: groupTranscriptsIntoChunks_def chunk_inv_def)
qed

lemma spaced_chunks:
  "groupTranscriptsIntoChunks spaced 300 =
     [map (\<lambda>t. segment t ''A'' [''ok'']) [0, 100, 300],
      map (\<lambda>t. segment t ''A'' [''ok'']) [301, 500],
      map (\<lambda>t. segment t ''A'' [''ok'']) [700]]"
  by (simp add: spaced_def groupTranscriptsIntoChunks_def chunk_step_def segment_def)

text \<open>
  C7. Chunking is a partition that keeps the order: the chunks concatenate to the input
  and none is empty, so every segment lies in exactly one chunk. The assignment is the
  greedy one: within a chunk every segment after the first starts at most
  \<open>maxChunkDuration\<close> after the chunk's first segment, whose start is the chunk's
  reference time, and the first segment of every later chunk starts more than
  \<open>maxChunkDuration\<close> after the first segment of the chunk before it. The empty input gives
  no chunk.
\<close>

theorem chunks_partition:
  "concat (groupTranscriptsIntoChunks ts d) = ts
   \<and> [] \<notin> set (groupTranscriptsIntoChunks ts d)
   \<and> (\<forall>c \<in> set (groupTranscriptsIntoChunks ts d).
         \<forall>s \<in> set (tl c). start_time s - start_time (hd c) \<le> d)
   \<and> (\<forall>i. Suc i < length (groupTranscriptsIntoChunks ts d) \<longrightarrow>
          start_time (hd (groupTranscriptsIntoChunks ts d ! Suc i))
            - start_time (hd (groupTranscriptsIntoChunks ts d ! i)) > d)
   \<and> groupTranscriptsIntoChunks [] d = []"
proof (cases ts)
  case Nil
  then show ?thesis by (simp add: groupTranscriptsIntoChunks_def)
next
  case (Cons t rest)
  obtain chunks cur t0
    where st: "foldl (chunk_step d) ([], [], start_time (hd ts)) ts = (chunks, cur, t0)"
    by (cases "foldl (chunk_step d) ([], [], start_time (hd ts)) ts")
  from chunk_inv_foldl [of ts d] Cons st have inv: "chunk_inv d ts (chunks, cur, t0)" by simp
  have res: "groupTranscriptsIntoChunks ts d = chunks @ [cur]"
    using inv st Cons by (simp add: groupTranscriptsIntoChunks_def chunk_inv_def)
  from inv show ?thesis unfolding res
    by (auto simp: chunk_inv_def successively_conv_nth groupTranscriptsIntoChunks_def)
qed

theorem chunks_partition_witness:
  "concat (groupTranscriptsIntoChunks spaced 300) = spaced
   \<and> length (groupTranscriptsIntoChunks spaced 300) = 3
   \<and> map (map start_time) (groupTranscriptsIntoChunks spaced 300) = [[0, 100, 300], [301, 500], [700]]
   \<and> start_time (hd (groupTranscriptsIntoChunks spaced 300 ! 1))
        - start_time (hd (groupTranscriptsIntoChunks spaced 300 ! 0)) > 300
   \<and> start_time (last (groupTranscriptsIntoChunks spaced 300 ! 0))
        - start_time (hd (groupTranscriptsIntoChunks spaced 300 ! 0)) \<le> 300"
  using chunks_partition [of spaced 300]
  by (simp add: spaced_chunks) (simp add: segment_def)

section \<open>Deduplication and ranking\<close>

lemma dedup_used:
  "snd (foldl dedup_step ([], []) xs) = map timestamp (fst (foldl dedup_step ([], []) xs))"
  by (induction xs rule: rev_induct) (auto simp: dedup_step_def split: prod.splits)

lemma dedup_loop_snoc:
  "fst (foldl dedup_step ([], []) (xs @ [s])) =
     (if \<exists>r \<in> set (fst (foldl dedup_step ([], []) xs)). \<bar>timestamp s - timestamp r\<bar> < 30
      then fst (foldl dedup_step ([], []) xs)
      else fst (foldl dedup_step ([], []) xs) @ [s])"
proof -
  obtain res used where st: "foldl dedup_step ([], []) xs = (res, used)"
    by (cases "foldl dedup_step ([], []) xs")
  with dedup_used [of xs] have "used = map timestamp res" by simp
  with st show ?thesis by (auto simp: dedup_step_def list_ex_iff)
qed

lemma dedup_loop_short:
  "length xs \<le> 1 \<Longrightarrow> fst (foldl dedup_step ([], []) xs) = xs"
  by (cases xs) (auto simp: dedup_step_def)

lemma dedup_is_loop: "deduplicateSegments xs = fst (foldl dedup_step ([], []) xs)"
  by (simp add: deduplicateSegments_def dedup_loop_short)

lemma dedup_snoc:
  "deduplicateSegments (xs @ [s]) =
     (if \<exists>r \<in> set (deduplicateSegments xs). \<bar>timestamp s - timestamp r\<bar> < 30
      then deduplicateSegments xs
      else deduplicateSegments xs @ [s])"
  unfolding dedup_is_loop by (rule dedup_loop_snoc)

lemma dedup_apart:
  "sorted_wrt (\<lambda>a b. \<not> \<bar>timestamp b - timestamp a\<bar> < 30) (deduplicateSegments xs)"
proof (induction xs rule: rev_induct)
  case Nil
  then show ?case by (simp add: deduplicateSegments_def)
next
  case (snoc s xs)
  then show ?case by (auto simp: dedup_snoc sorted_wrt_append)
qed

lemma apart_distinct:
  "sorted_wrt (\<lambda>a b. \<not> \<bar>timestamp b - timestamp a\<bar> < 30) xs \<Longrightarrow> distinct (map timestamp xs)"
  by (induction xs) auto

lemma dedup_distinct: "distinct (map timestamp (deduplicateSegments xs))"
  by (rule apart_distinct [OF dedup_apart])

lemma take_earliest:
  assumes "sorted (map f xs)" "distinct (map f xs)" "x \<in> set (take n xs)" "y \<in> set xs"
    "y \<notin> set (take n xs)"
  shows "f x < (f y :: int)"
proof -
  have xs: "xs = take n xs @ drop n xs" by simp
  from assms(4,5) have y: "y \<in> set (drop n xs)"
    by (metis Un_iff append_take_drop_id set_append)
  from assms(1) have "sorted (map f (take n xs) @ map f (drop n xs))"
    by (metis xs map_append)
  with assms(3) y have le: "f x \<le> f y" by (auto simp: sorted_append)
  from assms(2) have "distinct (map f (take n xs) @ map f (drop n xs))"
    by (metis xs map_append)
  with assms(3) y have "f x \<noteq> f y" by auto
  with le show ?thesis by simp
qed

lemma strict_sorted_distinct: "sorted_wrt (<) (xs :: int list) \<Longrightarrow> distinct xs \<and> sorted xs"
  by (simp add: strict_sorted_iff)

lemma earliest_set_eq:
  assumes a: "earliest_in_order m surv xs" and b: "earliest_in_order m surv ys"
  shows "set xs = set ys"
proof (rule ccontr)
  assume ne: "set xs \<noteq> set ys"
  from a have dx: "distinct xs"
    using strict_sorted_distinct [of "map timestamp xs"] by (auto simp: earliest_in_order_def distinct_map)
  from b have dy: "distinct ys"
    using strict_sorted_distinct [of "map timestamp ys"] by (auto simp: earliest_in_order_def distinct_map)
  from a b have len: "length xs = length ys" by (simp add: earliest_in_order_def)
  from dx dy len have card: "card (set xs) = card (set ys)" by (simp add: distinct_card)
  have "\<exists>x y. x \<in> set xs \<and> x \<notin> set ys \<and> y \<in> set ys \<and> y \<notin> set xs"
  proof -
    have nsub1: "\<not> set xs \<subseteq> set ys"
      using ne card by (metis List.finite_set card_subset_eq)
    have nsub2: "\<not> set ys \<subseteq> set xs"
      using ne card by (metis List.finite_set card_subset_eq)
    from nsub1 nsub2 show ?thesis by blast
  qed
  then obtain x y where x: "x \<in> set xs" "x \<notin> set ys" and y: "y \<in> set ys" "y \<notin> set xs" by blast
  from a x have xs: "x \<in> set surv" by (auto simp: earliest_in_order_def)
  from b y have ys: "y \<in> set surv" by (auto simp: earliest_in_order_def)
  from a x(1) ys y(2) have "timestamp x < timestamp y" by (auto simp: earliest_in_order_def)
  moreover from b y(1) xs x(2) have "timestamp y < timestamp x" by (auto simp: earliest_in_order_def)
  ultimately show False by simp
qed

lemma earliest_unique:
  assumes a: "earliest_in_order m surv xs" and b: "earliest_in_order m surv ys"
  shows "xs = ys"
proof -
  have s: "set xs = set ys" by (rule earliest_set_eq [OF a b])
  from a have sx: "sorted_wrt (<) (map timestamp xs)" by (simp add: earliest_in_order_def)
  from b have sy: "sorted_wrt (<) (map timestamp ys)" by (simp add: earliest_in_order_def)
  from s have "set (map timestamp xs) = set (map timestamp ys)" by simp
  with sx sy have m: "map timestamp xs = map timestamp ys"
    using strict_sorted_distinct [of "map timestamp xs"] strict_sorted_distinct [of "map timestamp ys"]
    by (metis sorted_distinct_set_unique)
  from sx have "inj_on timestamp (set xs)"
    using strict_sorted_distinct [of "map timestamp xs"] by (simp add: distinct_map)
  with s have "inj_on timestamp (set xs \<union> set ys)" by simp
  with m show ?thesis by (simp add: inj_on_map_eq_map)
qed

lemma rank_earliest:
  assumes "1 \<le> m"
  shows "earliest_in_order m (deduplicateSegments (sortByImportance cs)) (rankSegments cs m)"
proof -
  let ?surv = "deduplicateSegments (sortByImportance cs)"
  let ?chron = "sort_key timestamp ?surv"
  from assms have out: "rankSegments cs m = take (nat m) ?chron"
    by (simp add: rankSegments_def slice_to_def)
  have s: "sorted (map timestamp ?chron)" by simp
  have d: "distinct (map timestamp ?chron)"
    using dedup_distinct [of "sortByImportance cs"]
    by (metis distinct_map distinct_sort inj_on_cong set_sort)
  from s d have "sorted_wrt (<) (map timestamp ?chron)"
    by (simp add: strict_sorted_iff del: sorted_sort_key)
  then have 1: "sorted_wrt (<) (map timestamp (take (nat m) ?chron))"
    by (simp add: sorted_wrt_take take_map [symmetric] del: sorted_sort_key)
  have 2: "set (take (nat m) ?chron) \<subseteq> set ?surv"
    using set_take_subset [of "nat m" ?chron] by simp
  have 3: "\<forall>x \<in> set (take (nat m) ?chron). \<forall>y \<in> set ?surv.
             y \<notin> set (take (nat m) ?chron) \<longrightarrow> timestamp x < timestamp y"
    using take_earliest [OF s d] by simp
  have 4: "length (take (nat m) ?chron) = min (nat m) (length ?surv)" by simp
  from 1 2 3 4 show ?thesis unfolding out earliest_in_order_def by simp
qed

lemma dedup_nil: "deduplicateSegments [] = []"
  by (simp add: deduplicateSegments_def)

lemma dedup_subset: "set (deduplicateSegments xs) \<subseteq> set xs"
  by (induction xs rule: rev_induct) (auto simp: dedup_snoc dedup_nil)

lemma dedup_nonempty: "xs \<noteq> [] \<Longrightarrow> deduplicateSegments xs \<noteq> []"
  by (induction xs rule: rev_induct) (auto simp: dedup_snoc dedup_nil)

lemma allSegments_nonempty: "ts \<noteq> [] \<Longrightarrow> allSegments ts \<noteq> []"
  by (cases ts) (simp_all add: allSegments_def getStructuralSegments_def)

lemma finalSegments_nonempty:
  assumes "ts \<noteq> []" and "1 \<le> m"
  shows "finalSegments ts m \<noteq> []"
proof -
  from assms(1) have "sort_key start_time ts \<noteq> []" by (metis length_sort length_0_conv)
  then have "allSegments (sort_key start_time ts) \<noteq> []" by (rule allSegments_nonempty)
  then have "sortByImportance (allSegments (sort_key start_time ts)) \<noteq> []"
    unfolding sortByImportance_def by (metis length_sort length_0_conv)
  then have "deduplicateSegments (sortByImportance (allSegments (sort_key start_time ts))) \<noteq> []"
    by (rule dedup_nonempty)
  then have "sort_key timestamp
               (deduplicateSegments (sortByImportance (allSegments (sort_key start_time ts)))) \<noteq> []"
    by (metis length_sort length_0_conv)
  with assms(2) show ?thesis
    by (simp add: finalSegments_def rankSegments_def slice_to_def)
qed

lemma tool_moments:
  assumes "findKeyMomentsTool identifyTopics valid response args = KeyMoments r"
  shows "\<exists>data. response = Inr (Some data) \<and> valid \<and> transcripts data \<noteq> []
           \<and> report_segments r = map formatSegment (finalSegments (transcripts data) (maxMoments args))"
  using assms
  by (auto simp: findKeyMomentsTool_def Let_def split: if_splits sum.splits option.splits)

lemma tool_reports:
  assumes "valid" and "transcripts data \<noteq> []"
    and "finalSegments (transcripts data) (maxMoments args) \<noteq> []"
  shows "\<exists>r. findKeyMomentsTool identifyTopics valid (Inr (Some data)) args = KeyMoments r"
  using assms by (simp add: findKeyMomentsTool_def Let_def)

lemma late_decision_survivors:
  "map (\<lambda>c. (timestamp c, importance c, description c))
     (deduplicateSegments (sortByImportance (allSegments (sort_key start_time late_decision))))
   = [(300, 10, ''Summary or conclusion''), (0, 5, ''Meeting start'')]"
  by code_simp

lemma late_decision_moments:
  "map formatSegment (finalSegments late_decision 1) =
     [\<lparr>km_timestamp = 0, km_speaker = ''A'', km_description = ''Meeting start''\<rparr>]"
  by code_simp

text \<open>
  C1. For \<open>maxMoments \<ge> 1\<close> the tool cuts the list after the chronological sort: the
  moments returned are exactly the \<open>maxMoments\<close> earliest of the segments that survive
  deduplication (all of them when fewer survive), in strictly ascending order of
  timestamp. They are survivors, every survivor left out is later than every moment
  returned, and no other list has these properties. This holds of the ranking of every
  list of candidates, of the final segments of every transcript, and of the moments of
  every report of the tool; the tool gives a report whenever the session is valid and
  the transcript is not empty. Importance plays no part in the cut: with survivors at 10,
  50, 90, 500 and 900 of importance 1, 9, 1, 1 and 1 and \<open>maxMoments = 3\<close> the moments at
  10, 50 and 90 are returned.
\<close>

theorem rank_truncates_after_sort:
  assumes "1 \<le> m"
  shows "earliest_in_order m (deduplicateSegments (sortByImportance cs)) (rankSegments cs m)
     \<and> (\<forall>out. earliest_in_order m (deduplicateSegments (sortByImportance cs)) out
               \<longrightarrow> out = rankSegments cs m)
     \<and> earliest_in_order m
         (deduplicateSegments (sortByImportance (allSegments (sort_key start_time ts))))
         (finalSegments ts m)
     \<and> (maxMoments args = m
          \<and> findKeyMomentsTool identifyTopics valid response args = KeyMoments r \<longrightarrow>
          (\<exists>data out. response = Inr (Some data)
             \<and> report_segments r = map formatSegment out
             \<and> earliest_in_order m
                 (deduplicateSegments
                    (sortByImportance (allSegments (sort_key start_time (transcripts data)))))
                 out))
     \<and> (maxMoments args = m \<and> valid \<and> transcripts data \<noteq> [] \<longrightarrow>
          (\<exists>r'. findKeyMomentsTool identifyTopics valid (Inr (Some data)) args = KeyMoments r'))
     \<and> (map timestamp [a, b, c, d, e] = [10, 50, 90, 500, 900]
          \<and> map importance [a, b, c, d, e] = [1, 9, 1, 1, 1]
          \<longrightarrow> deduplicateSegments (sortByImportance [a, b, c, d, e]) = [b, a, c, d, e]
              \<and> rankSegments [a, b, c, d, e] 3 = [a, b, c])"
proof -
  have 1: "earliest_in_order m (deduplicateSegments (sortByImportance cs)) (rankSegments cs m)"
    by (rule rank_earliest [OF assms])
  have 2: "\<forall>out. earliest_in_order m (deduplicateSegments (sortByImportance cs)) out
               \<longrightarrow> out = rankSegments cs m"
    using earliest_unique [OF _ 1] by blast
  have 3: "earliest_in_order m
         (deduplicateSegments (sortByImportance (allSegments (sort_key start_time ts))))
         (finalSegments ts m)" for ts
    unfolding finalSegments_def by (rule rank_earliest [OF assms])
  have 4: "maxMoments args = m
          \<and> findKeyMomentsTool identifyTopics valid response args = KeyMoments r \<longrightarrow>
          (\<exists>data out. response = Inr (Some data)
             \<and> report_segments r = map formatSegment out
             \<and> earliest_in_order m
                 (deduplicateSegments
                    (sortByImportance (allSegments (sort_key start_time (transcripts data)))))
                 out)"
    using tool_moments [of identifyTopics valid response args r] 3 by blast
  have 5: "maxMoments args = m \<and> valid \<and> transcripts data \<noteq> [] \<longrightarrow>
          (\<exists>r'. findKeyMomentsTool identifyTopics valid (Inr (Some data)) args = KeyMoments r')"
    using tool_reports [of valid data args identifyTopics]
      finalSegments_nonempty [of "transcripts data" m] assms by blast
  have 6: "map timestamp [a, b, c, d, e] = [10, 50, 90, 500, 900]
          \<and> map importance [a, b, c, d, e] = [1, 9, 1, 1, 1]
          \<longrightarrow> deduplicateSegments (sortByImportance [a, b, c, d, e]) = [b, a, c, d, e]
              \<and> rankSegments [a, b, c, d, e] 3 = [a, b, c]"
    by (simp add: rankSegments_def sortByImportance_def deduplicateSegments_def dedup_step_def
          slice_to_def)
  from 1 2 3 [of ts] 4 5 6 show ?thesis by (intro conjI) assumption+
qed

theorem rank_truncates_after_sort_witness:
  "(1::int) \<le> 1 \<and> maxMoments one_moment = 1 \<and> transcripts late_decision_data \<noteq> []
   \<and> (case findKeyMomentsTool twelve_topics True (Inr (Some late_decision_data)) one_moment of
        KeyMoments r \<Rightarrow> report_segments r
      | _ \<Rightarrow> [])
       = [\<lparr>km_timestamp = 0, km_speaker = ''A'', km_description = ''Meeting start''\<rparr>]
   \<and> map (\<lambda>c. (timestamp c, importance c, description c))
       (deduplicateSegments (sortByImportance (allSegments (sort_key start_time late_decision))))
       = [(300, 10, ''Summary or conclusion''), (0, 5, ''Meeting start'')]
   \<and> rankSegments [moment 10 1, moment 50 9, moment 90 1, moment 500 1, moment 900 1] 3
       = [moment 10 1, moment 50 9, moment 90 1]"
proof -
  have m: "maxMoments one_moment = 1" by (simp add: one_moment_def)
  have t: "transcripts late_decision_data = late_decision"
    by (simp add: late_decision_data_def)
  have ne: "late_decision \<noteq> []" by (simp add: late_decision_def)
  note inst = rank_truncates_after_sort [of 1
      "[moment 10 1, moment 50 9, moment 90 1, moment 500 1, moment 900 1]"
      late_decision one_moment twelve_topics True "Inr (Some late_decision_data)" _
      late_decision_data
      "moment 10 1" "moment 50 9" "moment 90 1" "moment 500 1" "moment 900 1"]
  from inst m t ne obtain r
    where r: "findKeyMomentsTool twelve_topics True (Inr (Some late_decision_data)) one_moment
                = KeyMoments r"
    by auto
  from tool_moments [OF r] m t late_decision_moments
  have s: "report_segments r
             = [\<lparr>km_timestamp = 0, km_speaker = ''A'', km_description = ''Meeting start''\<rparr>]"
    by simp
  have ex: "rankSegments [moment 10 1, moment 50 9, moment 90 1, moment 500 1, moment 900 1] 3
       = [moment 10 1, moment 50 9, moment 90 1]"
    using inst by (simp add: moment_def)
  from r s ex m t ne late_decision_survivors show ?thesis by simp
qed

lemma sortByImportance_stable:
  "filter (\<lambda>s. importance s = k) (sortByImportance cs) = filter (\<lambda>s. importance s = k) cs"
  using sort_key_stable [of "\<lambda>s. - importance s" "- k" cs]
  by (simp add: sortByImportance_def)

lemma dedup_greedy_covering:
  assumes "sorted (map (\<lambda>s. - importance s) xs)"
  shows "\<forall>c \<in> set xs. c \<in> set (deduplicateSegments xs)
           \<or> (\<exists>r \<in> set (deduplicateSegments xs).
                 \<bar>timestamp c - timestamp r\<bar> < 30 \<and> importance c \<le> importance r)"
  using assms
proof (induction xs rule: rev_induct)
  case Nil
  then show ?case by simp
next
  case (snoc s xs)
  from snoc.prems have sorted: "sorted (map (\<lambda>s. - importance s) xs)"
    and le: "\<forall>y \<in> set xs. importance s \<le> importance y"
    by (auto simp: sorted_append)
  note IH = snoc.IH [OF sorted]
  show ?case
  proof (cases "\<exists>r \<in> set (deduplicateSegments xs). \<bar>timestamp s - timestamp r\<bar> < 30")
    case True
    then have d: "deduplicateSegments (xs @ [s]) = deduplicateSegments xs"
      by (simp add: dedup_snoc)
    from True obtain r where r: "r \<in> set (deduplicateSegments xs)"
      "\<bar>timestamp s - timestamp r\<bar> < 30" by blast
    with dedup_subset [of xs] le have "importance s \<le> importance r" by blast
    with r IH show ?thesis unfolding d by auto
  next
    case False
    then have d: "deduplicateSegments (xs @ [s]) = deduplicateSegments xs @ [s]"
      by (simp add: dedup_snoc)
    from IH show ?thesis unfolding d by auto
  qed
qed

lemma kickoff_candidates:
  "map (\<lambda>c. (timestamp c, importance c, description c))
     (allSegments (sort_key start_time kickoff))
   = [(0, 2, ''Notable discussion''), (10, 6, ''Decision point''),
      (0, 5, ''Meeting start''), (10, 4, ''Meeting conclusion'')]"
  by code_simp

lemma kickoff_moments:
  "map formatSegment (finalSegments kickoff 2) =
     [\<lparr>km_timestamp = 10, km_speaker = ''B'', km_description = ''Decision point''\<rparr>]"
  by code_simp

text \<open>
  C6. Deduplication is greedy by importance. The tool sorts its candidates by descending
  importance (the sort is stable: candidates of equal importance keep their order, and
  the list is a rearrangement of the candidates), deduplicates this list, and reports the
  survivors sorted by timestamp and cut to \<open>maxMoments\<close>. Deduplication walks its input in
  order and keeps a candidate unless its timestamp is less than 30 seconds from the
  timestamp of a candidate kept before it; what is kept only grows. So every candidate
  survives or is less than 30 seconds from a survivor that is at least as important. For
  candidates at 100, 110 and 200 of importance 5, 3 and 1 the one at 110 is dropped and
  the moments at 100 and 200 are returned, in this order.
\<close>

theorem dedup_greedy:
  "sorted (map (\<lambda>s. - importance s) (sortByImportance cs))
   \<and> set (sortByImportance cs) = set cs \<and> length (sortByImportance cs) = length cs
   \<and> (\<forall>k. filter (\<lambda>s. importance s = k) (sortByImportance cs)
            = filter (\<lambda>s. importance s = k) cs)
   \<and> rankSegments cs m
       = slice_to m (sort_key timestamp (deduplicateSegments (sortByImportance cs)))
   \<and> finalSegments ts m
       = slice_to m (sort_key timestamp
           (deduplicateSegments (sortByImportance (allSegments (sort_key start_time ts)))))
   \<and> (findKeyMomentsTool identifyTopics valid response args = KeyMoments r \<longrightarrow>
        (\<exists>data. response = Inr (Some data)
           \<and> report_segments r
               = map formatSegment
                   (slice_to (maxMoments args)
                      (sort_key timestamp
                         (deduplicateSegments
                            (sortByImportance
                               (allSegments (sort_key start_time (transcripts data)))))))))
   \<and> deduplicateSegments [] = []
   \<and> deduplicateSegments (xs @ [s]) =
       (if \<exists>r \<in> set (deduplicateSegments xs). \<bar>timestamp s - timestamp r\<bar> < 30
        then deduplicateSegments xs
        else deduplicateSegments xs @ [s])
   \<and> (\<forall>c \<in> set cs. c \<in> set (deduplicateSegments (sortByImportance cs))
         \<or> (\<exists>r \<in> set (deduplicateSegments (sortByImportance cs)).
               \<bar>timestamp c - timestamp r\<bar> < 30 \<and> importance c \<le> importance r))
   \<and> (timestamp a = 100 \<and> importance a = 5 \<and> timestamp b = 110 \<and> importance b = 3
        \<and> timestamp c = 200 \<and> importance c = 1 \<and> 2 \<le> n
        \<longrightarrow> deduplicateSegments (sortByImportance [a, b, c]) = [a, c]
            \<and> rankSegments [a, b, c] n = [a, c])"
proof -
  have 1: "timestamp a = 100 \<and> importance a = 5 \<and> timestamp b = 110 \<and> importance b = 3
        \<and> timestamp c = 200 \<and> importance c = 1 \<and> 2 \<le> n
        \<longrightarrow> deduplicateSegments (sortByImportance [a, b, c]) = [a, c]
            \<and> rankSegments [a, b, c] n = [a, c]"
    by (auto simp: rankSegments_def sortByImportance_def deduplicateSegments_def dedup_step_def
          slice_to_def)
  have 2: "deduplicateSegments [] = []" by (rule dedup_nil)
  have 3: "sorted (map (\<lambda>s. - importance s) (sortByImportance cs))"
    by (simp add: sortByImportance_def)
  have 4: "set (sortByImportance cs) = set cs" "length (sortByImportance cs) = length cs"
    by (simp_all add: sortByImportance_def)
  have 5: "rankSegments cs m
       = slice_to m (sort_key timestamp (deduplicateSegments (sortByImportance cs)))"
    by (simp add: rankSegments_def)
  have 6: "finalSegments ts m
       = slice_to m (sort_key timestamp
           (deduplicateSegments (sortByImportance (allSegments (sort_key start_time ts)))))" for ts m
    by (simp add: finalSegments_def rankSegments_def)
  have 7: "findKeyMomentsTool identifyTopics valid response args = KeyMoments r \<longrightarrow>
        (\<exists>data. response = Inr (Some data)
           \<and> report_segments r
               = map formatSegment
                   (slice_to (maxMoments args)
                      (sort_key timestamp
                         (deduplicateSegments
                            (sortByImportance
                               (allSegments (sort_key start_time (transcripts data))))))))"
    using tool_moments [of identifyTopics valid response args r] 6 by auto
  have 8: "\<forall>k. filter (\<lambda>s. importance s = k) (sortByImportance cs)
            = filter (\<lambda>s. importance s = k) cs"
    by (simp add: sortByImportance_stable)
  have 9: "\<forall>c \<in> set cs. c \<in> set (deduplicateSegments (sortByImportance cs))
         \<or> (\<exists>r \<in> set (deduplicateSegments (sortByImportance cs)).
               \<bar>timestamp c - timestamp r\<bar> < 30 \<and> importance c \<le> importance r)"
    using dedup_greedy_covering [OF 3] 4(1) by simp
  from 3 4 8 5 6 [of ts m] 7 2 dedup_snoc [of xs s] 9 1 show ?thesis
    by (intro conjI) assumption+
qed

theorem dedup_greedy_witness:
  "deduplicateSegments ([moment 100 5] @ [moment 110 3]) = [moment 100 5]
   \<and> deduplicateSegments ([moment 100 5] @ [moment 200 1]) = [moment 100 5, moment 200 1]
   \<and> rankSegments [moment 100 5, moment 110 3, moment 200 1] 5 = [moment 100 5, moment 200 1]
   \<and> timestamp (moment 100 5) = 100 \<and> importance (moment 110 3) = 3 \<and> (2::int) \<le> 5
   \<and> (case findKeyMomentsTool twelve_topics True (Inr (Some kickoff_data)) scenario_args of
        KeyMoments r \<Rightarrow> report_segments r
      | _ \<Rightarrow> [])
       = [\<lparr>km_timestamp = 10, km_speaker = ''B'', km_description = ''Decision point''\<rparr>]
   \<and> map (\<lambda>c. (timestamp c, importance c, description c))
       (allSegments (sort_key start_time kickoff))
       = [(0, 2, ''Notable discussion''), (10, 6, ''Decision point''),
          (0, 5, ''Meeting start''), (10, 4, ''Meeting conclusion'')]"
proof -
  have t: "transcripts kickoff_data = kickoff" by (simp add: kickoff_data_def)
  have ne: "kickoff \<noteq> []" by (simp add: kickoff_def)
  have m: "maxMoments scenario_args = 2" by (simp add: scenario_args_def)
  have f: "finalSegments kickoff 2 \<noteq> []"
    by (rule finalSegments_nonempty [OF ne]) simp
  from tool_reports [of True kickoff_data scenario_args twelve_topics] t ne m f obtain r
    where r: "findKeyMomentsTool twelve_topics True (Inr (Some kickoff_data)) scenario_args
                = KeyMoments r"
    by auto
  note inst1 = dedup_greedy [of "[]" 5 kickoff twelve_topics True "Inr (Some kickoff_data)"
      scenario_args r "[moment 100 5]" "moment 110 3"
      "moment 100 5" "moment 110 3" "moment 200 1" 5]
  note inst2 = dedup_greedy [of "[]" 5 kickoff twelve_topics True "Inr (Some kickoff_data)"
      scenario_args r "[moment 100 5]" "moment 200 1"
      "moment 100 5" "moment 110 3" "moment 200 1" 5]
  from inst1 r t m kickoff_moments have s: "report_segments r
      = [\<lparr>km_timestamp = 10, km_speaker = ''B'', km_description = ''Decision point''\<rparr>]"
    by (simp add: finalSegments_def rankSegments_def)
  have ex: "deduplicateSegments ([moment 100 5] @ [moment 110 3]) = [moment 100 5]
   \<and> deduplicateSegments ([moment 100 5] @ [moment 200 1]) = [moment 100 5, moment 200 1]
   \<and> rankSegments [moment 100 5, moment 110 3, moment 200 1] 5 = [moment 100 5, moment 200 1]
   \<and> timestamp (moment 100 5) = 100 \<and> importance (moment 110 3) = 3 \<and> (2::int) \<le> 5"
    using inst1 inst2 by (simp add: moment_def deduplicateSegments_def)
  from ex r s kickoff_candidates show ?thesis by simp
qed


section \<open>Content scoring\<close>

lemma importanceScore_sum:
  "importanceScore text =
     (if rx_test importance_terms text then 3 else 0)
     + (if rx_test summary_terms text then 4 else 0)
     + (if rx_test obligation_terms text then 2 else 0)
     + (if rx_test decision_terms text then 3 else 0)
     + (if rx_test problem_terms text then 2 else 0)
     + (if rx_test solution_terms text then 2 else 0)
     + (if rx_test next_steps_terms text then 3 else 0)
     + int (min 2 (wordCount text div 20))"
  by (simp add: importanceScore_def importancePatterns_def)

lemma importanceScore_nonneg: "0 \<le> importanceScore text"
  unfolding importanceScore_sum by simp

lemma get_back_score: "importanceScore ''We will get back to you on this issue'' = 7"
  by code_simp

lemma get_back_description:
  "determineDescription ''We will get back to you on this issue'' 7 = ''Problem discussion''"
  by code_simp

lemma get_back_by_table:
  "described_by_score_table ''We will get back to you on this issue'' 7
     = ''Discussion about next steps''"
  by code_simp

lemma get_back_text: "segment_text get_back = ''We will get back to you on this issue''"
  by (simp add: get_back_def segment_def segment_text_def)

lemma important_segment_eq:
  "important_segment t =
     (if words t \<noteq> None \<and> importanceScore (segment_text t) \<noteq> 0 then [content_candidate t]
      else [])"
  using importanceScore_nonneg [of "segment_text t"]
  by (auto simp: important_segment_def content_candidate_def segment_text_def Let_def
        split: option.splits)

lemma findImportantSegments_eq:
  "findImportantSegments ts =
     map content_candidate
       (filter (\<lambda>t. words t \<noteq> None \<and> importanceScore (segment_text t) \<noteq> 0) ts)"
  by (induction ts) (simp_all add: findImportantSegments_def important_segment_eq)

lemma content_type: "\<forall>c \<in> set (findImportantSegments ts). cand_type c = ContentSegment"
  by (auto simp: findImportantSegments_eq content_candidate_def)

lemma conversation_type:
  "\<forall>c \<in> set (findConversationalExchanges ts). cand_type c = ConversationSegment"
  by (induction ts rule: findConversationalExchanges.induct) auto

lemma structural_type:
  "\<forall>c \<in> set (getStructuralSegments ts). cand_type c = StructuralSegment"
  by (auto simp: getStructuralSegments_def split: list.splits if_splits)

lemma filter_all: "\<forall>x \<in> set xs. P x \<Longrightarrow> filter P xs = xs"
  by (induction xs) auto

lemma filter_none: "\<forall>x \<in> set xs. \<not> P x \<Longrightarrow> filter P xs = []"
  by (induction xs) auto

lemma content_of_candidates:
  "filter (\<lambda>c. cand_type c = ContentSegment) (candidateSegments chunks)
     = findImportantSegments (concat chunks)"
proof (induction chunks)
  case Nil
  then show ?case by (simp add: candidateSegments_def findImportantSegments_def)
next
  case (Cons ch chunks)
  have a: "filter (\<lambda>c. cand_type c = ContentSegment) (findImportantSegments ch)
             = findImportantSegments ch"
    by (rule filter_all) (rule content_type)
  have b: "filter (\<lambda>c. cand_type c = ContentSegment) (findConversationalExchanges ch) = []"
    by (rule filter_none) (use conversation_type [of ch] in auto)
  from Cons a b show ?case
    by (simp add: candidateSegments_def findImportantSegments_def)
qed

lemma content_of_allSegments:
  "filter (\<lambda>c. cand_type c = ContentSegment) (allSegments ts) = findImportantSegments ts"
proof -
  have "filter (\<lambda>c. cand_type c = ContentSegment) (getStructuralSegments ts) = []"
    by (rule filter_none) (use structural_type [of ts] in auto)
  then show ?thesis
    by (simp add: allSegments_def scoreSegments_def content_of_candidates chunks_concat)
qed

lemma no_break_words: "wordCount no_break_text = 20"
  by code_simp

lemma no_break_score: "importanceScore no_break_text = 1"
  by code_simp

lemma ok_score: "importanceScore ''ok'' = 0"
  by code_simp

text \<open>
  C5. The content candidates of a list of transcript segments are, in the order of the
  segments, one for every segment that has words and scores other than 0, with this score
  as its importance; a segment without words or with score 0 gives no candidate. They are
  all the content candidates among the candidates of the tool. The text of a segment is its
  words joined by blanks, and the score of a text is the sum of the weights of the
  matching categories (importance 3, summary or conclusion 4, obligation 2, agreement or
  decision 3, problem 2, solution 2, next steps 3) plus \<open>min 2 (n div 20)\<close> for the number
  \<open>n\<close> of pieces of \<open>text.split(/\s+/)\<close>. The description follows the priority summary or
  conclusion, next steps, decision, problem, solution, else by score (over 5, over 3,
  otherwise), where the next-steps language of the description is its own list of
  phrases (next steps, follow up, moving forward, future, plan), not the category that
  scores 3.
\<close>

theorem content_scoring:
  "findImportantSegments ts =
     map (\<lambda>t. \<lparr>timestamp = start_time t, cand_speaker = speaker_or_unknown t,
                cand_text = segment_text t, importance = importanceScore (segment_text t),
                cand_type = ContentSegment,
                description =
                  determineDescription (segment_text t) (importanceScore (segment_text t))\<rparr>)
       (filter (\<lambda>t. words t \<noteq> None \<and> importanceScore (segment_text t) \<noteq> 0) ts)
   \<and> filter (\<lambda>c. cand_type c = ContentSegment) (allSegments ts) = findImportantSegments ts
   \<and> segment_text t = (case words t of None \<Rightarrow> [] | Some ws \<Rightarrow> join '' '' ws)
   \<and> importanceScore text =
           (if rx_test importance_terms text then 3 else 0)
           + (if rx_test summary_terms text then 4 else 0)
           + (if rx_test obligation_terms text then 2 else 0)
           + (if rx_test decision_terms text then 3 else 0)
           + (if rx_test problem_terms text then 2 else 0)
           + (if rx_test solution_terms text then 2 else 0)
           + (if rx_test next_steps_terms text then 3 else 0)
           + int (min 2 (length (split_whitespace text) div 20))
   \<and> determineDescription text score =
           (if rx_test summary_terms text then ''Summary or conclusion''
            else if rx_test description_next_steps_terms text then ''Discussion about next steps''
            else if rx_test decision_terms text then ''Decision point''
            else if rx_test problem_terms text then ''Problem discussion''
            else if rx_test solution_terms text then ''Solution discussion''
            else if score > 5 then ''Highly important discussion''
            else if score > 3 then ''Important point''
            else ''Notable discussion'')"
proof -
  have 1: "findImportantSegments ts =
     map (\<lambda>t. \<lparr>timestamp = start_time t, cand_speaker = speaker_or_unknown t,
                cand_text = segment_text t, importance = importanceScore (segment_text t),
                cand_type = ContentSegment,
                description =
                  determineDescription (segment_text t) (importanceScore (segment_text t))\<rparr>)
       (filter (\<lambda>t. words t \<noteq> None \<and> importanceScore (segment_text t) \<noteq> 0) ts)"
    using findImportantSegments_eq [of ts] by (simp add: content_candidate_def [abs_def])
  have 2: "segment_text t = (case words t of None \<Rightarrow> [] | Some ws \<Rightarrow> join '' '' ws)"
    by (simp add: segment_text_def)
  have 3: "importanceScore text =
           (if rx_test importance_terms text then 3 else 0)
           + (if rx_test summary_terms text then 4 else 0)
           + (if rx_test obligation_terms text then 2 else 0)
           + (if rx_test decision_terms text then 3 else 0)
           + (if rx_test problem_terms text then 2 else 0)
           + (if rx_test solution_terms text then 2 else 0)
           + (if rx_test next_steps_terms text then 3 else 0)
           + int (min 2 (length (split_whitespace text) div 20))"
    using importanceScore_sum [of "text"] by (simp only: wordCount_def)
  from 1 content_of_allSegments [of ts] 2 3 show ?thesis
    by (simp only: determineDescription_def simp_thms)
qed

theorem content_scoring_witness:
  "findImportantSegments quiet =
     [\<lparr>timestamp = 5, cand_speaker = ''A'',
        cand_text = ''We will get back to you on this issue'', importance = 7,
        cand_type = ContentSegment, description = ''Problem discussion''\<rparr>,
      \<lparr>timestamp = 9, cand_speaker = ''Unknown speaker'',
        cand_text = no_break_text, importance = 1,
        cand_type = ContentSegment, description = ''Notable discussion''\<rparr>]
   \<and> length (split_whitespace no_break_text) = 20
   \<and> importanceScore ''ok'' = 0"
proof -
  have d: "determineDescription no_break_text 1 = ''Notable discussion''"
    by code_simp
  have w: "length (split_whitespace no_break_text) = 20"
    using no_break_words by (simp add: wordCount_def)
  from content_scoring [of quiet] get_back_score get_back_description get_back_text
    no_break_score ok_score d w
  show ?thesis
    by (simp add: quiet_def segment_text_def speaker_or_unknown_def segment_def get_back_def)
qed

theorem description_rule_counterexample:
  "description (hd (findImportantSegments [get_back])) = ''Problem discussion''
   \<and> described_by_score_table (segment_text get_back) (importanceScore (segment_text get_back))
       = ''Discussion about next steps''
   \<and> rx_test next_steps_terms (segment_text get_back)
   \<and> description (hd (findImportantSegments [get_back]))
       \<noteq> described_by_score_table (segment_text get_back) (importanceScore (segment_text get_back))"
proof -
  have n: "rx_test next_steps_terms ''We will get back to you on this issue''"
    by code_simp
  have f: "findImportantSegments [get_back] =
       [\<lparr>timestamp = 5, cand_speaker = ''A'',
          cand_text = ''We will get back to you on this issue'', importance = 7,
          cand_type = ContentSegment, description = ''Problem discussion''\<rparr>]"
    using get_back_score get_back_description
    by (simp add: findImportantSegments_def important_segment_def get_back_def segment_def
          speaker_or_unknown_def)
  from n f get_back_by_table show ?thesis
    by (simp add: get_back_text get_back_score)
qed

section \<open>The scenario\<close>

lemma scenario_moments:
  "map formatSegment (finalSegments scenario 2) =
     [\<lparr>km_timestamp = 20, km_speaker = ''B'', km_description = ''Problem discussion''\<rparr>,
      \<lparr>km_timestamp = 600, km_speaker = ''A'', km_description = ''Summary or conclusion''\<rparr>]"
  by code_simp

lemma scenario_report:
  "findKeyMomentsTool identifyTopics True (Inr (Some scenario_data)) scenario_args =
     KeyMoments
       \<lparr>report_title = ''Budget review'',
         report_topics = topicsSection Medium (uniqueTopics identifyTopics scenario_args scenario),
         report_segments =
           [\<lparr>km_timestamp = 20, km_speaker = ''B'', km_description = ''Problem discussion''\<rparr>,
            \<lparr>km_timestamp = 600, km_speaker = ''A'',
              km_description = ''Summary or conclusion''\<rparr>]\<rparr>"
proof -
  have ne: "finalSegments scenario 2 \<noteq> []"
    using scenario_moments by auto
  have s: "scenario \<noteq> []" by (simp add: scenario_def)
  from ne s scenario_moments show ?thesis
    by (simp add: findKeyMomentsTool_def scenario_args_def scenario_data_def)
qed

text \<open>
  C4. For the transcript of three segments (at 0, 20 and 600 seconds) and
  \<open>maxMoments = 2\<close> the tool returns exactly two key moments: the budget segment at 20
  seconds, described as a problem discussion, and the segment at 600 seconds, described as
  a summary or conclusion. The meeting start at 0 seconds is within 30 seconds of the more
  important segment at 20 seconds and is removed by the deduplication.
\<close>

theorem scenario_key_moments:
  "findKeyMomentsTool identifyTopics True (Inr (Some scenario_data)) scenario_args =
     KeyMoments
       \<lparr>report_title = ''Budget review'',
         report_topics = topicsSection Medium (uniqueTopics identifyTopics scenario_args scenario),
         report_segments =
           [\<lparr>km_timestamp = 20, km_speaker = ''B'', km_description = ''Problem discussion''\<rparr>,
            \<lparr>km_timestamp = 600, km_speaker = ''A'',
              km_description = ''Summary or conclusion''\<rparr>]\<rparr>"
  by (rule scenario_report)

theorem scenario_key_moments_witness:
  "(case findKeyMomentsTool twelve_topics True (Inr (Some scenario_data)) scenario_args of
      KeyMoments r \<Rightarrow> map km_timestamp (report_segments r)
    | _ \<Rightarrow> []) = [20, 600]
   \<and> maxMoments scenario_args = 2 \<and> map start_time scenario = [0, 20, 600]"
  using scenario_key_moments [of twelve_topics]
  by (simp add: scenario_args_def scenario_def segment_def)

theorem scenario_counterexample:
  "\<not> (\<exists>r. findKeyMomentsTool twelve_topics True (Inr (Some scenario_data)) scenario_args
              = KeyMoments r
            \<and> map km_timestamp (report_segments r) = [0, 20])"
  by (simp add: scenario_report)

section \<open>Topics of the report\<close>

lemma unique_in_order_distinct: "distinct (unique_in_order xs)"
  by (simp add: unique_in_order_def)

text \<open>
  C10. In the report of the tool the section of main topics shows the first unique
  topics up to the limit of the granularity: at most 10 for high, 7 for medium and 5 for
  low; without unique topics the report has no such section.
\<close>

theorem topics_capped:
  assumes "findKeyMomentsTool identifyTopics valid response args = KeyMoments r"
  shows "\<exists>data. response = Inr (Some data)
     \<and> (uniqueTopics identifyTopics args (transcripts data) = [] \<longrightarrow> report_topics r = None)
     \<and> (uniqueTopics identifyTopics args (transcripts data) \<noteq> [] \<longrightarrow>
          report_topics r =
            Some (take (case granularity args of High \<Rightarrow> 10 | Medium \<Rightarrow> 7 | Low \<Rightarrow> 5)
                    (uniqueTopics identifyTopics args (transcripts data))))
     \<and> (\<forall>shown. report_topics r = Some shown \<longrightarrow>
          distinct shown
          \<and> length shown \<le> (case granularity args of High \<Rightarrow> 10 | Medium \<Rightarrow> 7 | Low \<Rightarrow> 5)
          \<and> length shown \<le> length (uniqueTopics identifyTopics args (transcripts data)))"
proof -
  from assms obtain data where resp: "response = Inr (Some data)"
    by (auto simp: findKeyMomentsTool_def Let_def split: if_splits sum.splits option.splits)
  let ?u = "uniqueTopics identifyTopics args (transcripts data)"
  have lim: "topicLimit (granularity args)
               = (case granularity args of High \<Rightarrow> 10 | Medium \<Rightarrow> 7 | Low \<Rightarrow> 5)"
    by (cases "granularity args") (simp_all add: topicLimit_def)
  from assms resp have t: "report_topics r = topicsSection (granularity args) ?u"
    by (auto simp: findKeyMomentsTool_def Let_def split: if_splits)
  have d: "distinct ?u" by (simp add: uniqueTopics_def unique_in_order_distinct)
  from t d lim resp show ?thesis
    by (auto simp: topicsSection_def)
qed

theorem topics_capped_witness:
  "findKeyMomentsTool twelve_topics True (Inr (Some scenario_data)) scenario_args
     = KeyMoments
         \<lparr>report_title = ''Budget review'',
           report_topics = Some [''budget'', ''hiring'', ''roadmap'', ''pricing'', ''launch'',
                                 ''support'', ''security''],
           report_segments =
             [\<lparr>km_timestamp = 20, km_speaker = ''B'', km_description = ''Problem discussion''\<rparr>,
              \<lparr>km_timestamp = 600, km_speaker = ''A'',
                km_description = ''Summary or conclusion''\<rparr>]\<rparr>
   \<and> length (uniqueTopics twelve_topics scenario_args scenario) = 12
   \<and> granularity scenario_args = Medium"
proof -
  have u: "uniqueTopics twelve_topics scenario_args scenario = twelve_topics []"
    by code_simp
  have ts: "topicsSection Medium (twelve_topics []) =
              Some [''budget'', ''hiring'', ''roadmap'', ''pricing'', ''launch'', ''support'',
                    ''security'']"
    by (simp add: topicsSection_def topicLimit_def twelve_topics_def)
  have g: "granularity scenario_args = Medium" by (simp add: scenario_args_def)
  have l: "length (uniqueTopics twelve_topics scenario_args scenario) = 12"
    unfolding u by (simp add: twelve_topics_def)
  from topics_capped [OF scenario_report [of twelve_topics]] ts g l show ?thesis
    by (simp add: scenario_report u)
qed


section \<open>Recent bots and the tracking store\<close>

lemma updateRecentBots_session:
  "fst (updateRecentBots e (Some s) db bid md) =
     Some (s\<lparr>recentBotIds :=
               Some (take 5 (bid # filter (\<lambda>i. i \<noteq> bid)
                                    (case recentBotIds s of None \<Rightarrow> [] | Some ids \<Rightarrow> ids)))\<rparr>)"
  by (simp add: updateRecentBots_def Let_def split: option.splits sum.splits)

lemma updateRecentBots_none: "fst (updateRecentBots e None db bid md) = None"
  by (simp add: updateRecentBots_def)

lemma recent_step:
  assumes "dist \<longrightarrow> distinct (case recentBotIds s of None \<Rightarrow> [] | Some ids \<Rightarrow> ids)"
  shows "recent_ok dist bid (fst (updateRecentBots e (Some s) db bid md))"
proof -
  define new where
    "new = take 5 (bid # filter (\<lambda>i. i \<noteq> bid) (case recentBotIds s of None \<Rightarrow> [] | Some ids \<Rightarrow> ids))"
  from assms have "dist \<longrightarrow> distinct (bid # filter (\<lambda>i. i \<noteq> bid) (case recentBotIds s of None \<Rightarrow> [] | Some ids \<Rightarrow> ids))"
    by simp
  then have d: "dist \<longrightarrow> distinct new" unfolding new_def using distinct_take by blast
  have h: "hd new = bid" "new \<noteq> []" "length new \<le> 5" by (simp_all add: new_def)
  have "fst (updateRecentBots e (Some s) db bid md) = Some (s\<lparr>recentBotIds := Some new\<rparr>)"
    by (simp add: updateRecentBots_session new_def)
  with d h show ?thesis by (simp add: recent_ok_def)
qed

lemma recent_ok_distinct:
  "recent_ok dist b (Some s) \<Longrightarrow>
   dist \<longrightarrow> distinct (case recentBotIds s of None \<Rightarrow> [] | Some ids \<Rightarrow> ids)"
  by (auto simp: recent_ok_def split: option.splits)

lemma recent_ok_foldl:
  assumes "calls \<noteq> []"
  shows "recent_ok (distinct (case recentBotIds s of None \<Rightarrow> [] | Some ids \<Rightarrow> ids))
           (fst (last calls))
           (fst (foldl (\<lambda>(sess, db) (bid, md). updateRecentBots e sess db bid md) (Some s, db) calls))"
  using assms
proof (induction calls rule: rev_induct)
  case Nil
  then show ?case by simp
next
  case (snoc c calls)
  let ?D = "distinct (case recentBotIds s of None \<Rightarrow> [] | Some ids \<Rightarrow> ids)"
  obtain bid md where c: "c = (bid, md)" by (cases c)
  obtain sess1 db1 where st: "foldl (\<lambda>(sess, db) (bid, md). updateRecentBots e sess db bid md) (Some s, db) calls = (sess1, db1)"
    by (cases "foldl (\<lambda>(sess, db) (bid, md). updateRecentBots e sess db bid md) (Some s, db) calls")
  have "\<exists>s1. sess1 = Some s1 \<and> (?D \<longrightarrow> distinct (case recentBotIds s1 of None \<Rightarrow> [] | Some ids \<Rightarrow> ids))"
  proof (cases "calls = []")
    case True
    with st show ?thesis by auto
  next
    case False
    with snoc.IH st have ok: "recent_ok ?D (fst (last calls)) sess1" by simp
    then obtain s1 where "sess1 = Some s1" by (cases sess1) (simp_all add: recent_ok_def)
    with ok recent_ok_distinct show ?thesis by blast
  qed
  then obtain s1 where s1: "sess1 = Some s1"
    and d1: "?D \<longrightarrow> distinct (case recentBotIds s1 of None \<Rightarrow> [] | Some ids \<Rightarrow> ids)" by blast
  from recent_step [OF d1, where bid = bid and e = e and db = db1 and md = md]
  show ?case by (simp add: st c s1)
qed

lemma getApiKey_trackBot [simp]:
  "getApiKeyWithFallbacks (e\<lparr>trackBot := t\<rparr>) s = getApiKeyWithFallbacks e s"
  by (simp add: getApiKeyWithFallbacks_def)

lemma getApiKey_cong:
  "map_option apiKey s1 = map_option apiKey s2 \<Longrightarrow>
   getApiKeyWithFallbacks e s1 = getApiKeyWithFallbacks e s2"
  by (simp add: getApiKeyWithFallbacks_def)

lemma updateRecentBots_key:
  "map_option apiKey (fst (updateRecentBots e s db bid md)) = map_option apiKey s"
  by (cases s) (simp_all add: updateRecentBots_session updateRecentBots_none)

lemma searchTranscriptTool_result:
  "fst (searchTranscriptTool e sess db bid q) =
     (case getApiKeyWithFallbacks e sess of
        None \<Rightarrow> authenticationFailed
      | Some key \<Rightarrow>
          (case apiRequest e key bid of
             Inl m \<Rightarrow> Text (''Error searching transcripts: '' @ m)
           | Inr response \<Rightarrow>
               (case searchTranscript_results (formatTime e) response q of
                  Inl m \<Rightarrow> Text (''Error searching transcripts: '' @ m)
                | Inr r \<Rightarrow> r)))"
  by (simp add: searchTranscriptTool_def createValidSession_def
           split: option.splits sum.splits prod.splits)

lemma searchTranscriptTool_key:
  "map_option apiKey (fst (snd (searchTranscriptTool e sess db bid q))) = map_option apiKey sess"
proof -
  have "\<And>r. map_option apiKey (fst (updateRecentBots e sess db bid r)) = map_option apiKey sess"
    by (rule updateRecentBots_key)
  then show ?thesis
    by (auto simp: searchTranscriptTool_def split: option.splits sum.splits prod.splits)
qed

lemma searchVideoSegmentTool_result:
  "fst (searchVideoSegmentTool e sess db bid a) =
     (case getApiKeyWithFallbacks e sess of
        None \<Rightarrow> authenticationFailed
      | Some key \<Rightarrow>
          (case apiRequest e key bid of
             Inl m \<Rightarrow> Text (''An error occurred during the search: '' @ m)
           | Inr response \<Rightarrow>
               (case searchVideoSegment_results (formatTime e) response a of
                  Inl m \<Rightarrow> Text (''An error occurred during the search: '' @ m)
                | Inr r \<Rightarrow> r)))"
  by (simp add: searchVideoSegmentTool_def createValidSession_def
           split: option.splits sum.splits prod.splits)

lemma searchVideoSegmentTool_key:
  "map_option apiKey (fst (snd (searchVideoSegmentTool e sess db bid a))) = map_option apiKey sess"
proof -
  have "\<And>r. map_option apiKey (fst (updateRecentBots e sess db bid r)) = map_option apiKey sess"
    by (rule updateRecentBots_key)
  then show ?thesis
    by (auto simp: searchVideoSegmentTool_def split: option.splits sum.splits prod.splits)
qed

lemma searchTranscriptTool_indep:
  assumes "map_option apiKey s1 = map_option apiKey s2"
  shows "fst (searchTranscriptTool (e\<lparr>trackBot := t1\<rparr>) s1 db1 bid q)
           = fst (searchTranscriptTool (e\<lparr>trackBot := t2\<rparr>) s2 db2 bid q)"
  by (simp add: searchTranscriptTool_result getApiKey_cong [OF assms] cong: option.case_cong sum.case_cong)

lemma searchVideoSegmentTool_indep:
  assumes "map_option apiKey s1 = map_option apiKey s2"
  shows "fst (searchVideoSegmentTool (e\<lparr>trackBot := t1\<rparr>) s1 db1 bid a)
           = fst (searchVideoSegmentTool (e\<lparr>trackBot := t2\<rparr>) s2 db2 bid a)"
  by (simp add: searchVideoSegmentTool_result getApiKey_cong [OF assms] cong: option.case_cong sum.case_cong)


lemma tier1_unfold:
  "tier1 e bid botData spk segArgs searchTerms (vs, db) =
     (if truthy spk \<and> trim searchTerms \<noteq> []
      then (if has_segments (fst (searchVideoSegmentTool e vs db bid segArgs))
            then (tier1_results (formatTime e) botData (the spk) searchTerms,
                  snd (searchVideoSegmentTool e vs db bid segArgs))
            else (Inr None, snd (searchVideoSegmentTool e vs db bid segArgs)))
      else (Inr None, (vs, db)))"
  by (simp add: tier1_def truthy_def split: option.splits prod.splits)

lemma tier2_unfold:
  "tier2 e bid spk segArgs (vs, db) =
     (if truthy spk
      then (if has_segments (fst (searchVideoSegmentTool e vs db bid segArgs))
            then (Inr (Some (fst (searchVideoSegmentTool e vs db bid segArgs))),
                  snd (searchVideoSegmentTool e vs db bid segArgs))
            else (Inr None, snd (searchVideoSegmentTool e vs db bid segArgs)))
      else (Inr None, (vs, db)))"
  by (simp add: tier2_def split: prod.splits)

lemma tier4_unfold:
  "tier4 e bid searchTerms (vs, db) =
     (if trim searchTerms \<noteq> []
      then (Inr (Some (fst (searchTranscriptTool e vs db bid searchTerms))),
            snd (searchTranscriptTool e vs db bid searchTerms))
      else (Inr None, (vs, db)))"
  by (simp add: tier4_def split: prod.splits)

lemma tier5_unfold:
  "tier5 e bid segArgs (vs, db) =
     (Inr (fst (searchVideoSegmentTool e vs db bid segArgs)),
      snd (searchVideoSegmentTool e vs db bid segArgs))"
  by (simp add: tier5_def split: prod.splits)

lemma key_of_video [simp]:
  "key_of (snd (searchVideoSegmentTool e vs db bid a)) = map_option apiKey vs"
  by (simp add: key_of_def searchVideoSegmentTool_key)

lemma key_of_transcript [simp]:
  "key_of (snd (searchTranscriptTool e vs db bid q)) = map_option apiKey vs"
  by (simp add: key_of_def searchTranscriptTool_key)

lemma tier1_indep:
  assumes "key_of st1 = key_of st2"
  shows "fst (tier1 (e\<lparr>trackBot := t1\<rparr>) bid bd spk a terms st1)
           = fst (tier1 (e\<lparr>trackBot := t2\<rparr>) bid bd spk a terms st2)
       \<and> key_of (snd (tier1 (e\<lparr>trackBot := t1\<rparr>) bid bd spk a terms st1))
           = key_of (snd (tier1 (e\<lparr>trackBot := t2\<rparr>) bid bd spk a terms st2))"
proof -
  obtain v1 d1 v2 d2 where st: "st1 = (v1, d1)" "st2 = (v2, d2)" by (cases st1, cases st2)
  with assms have k: "map_option apiKey v1 = map_option apiKey v2" by (simp add: key_of_def)
  note r = searchVideoSegmentTool_indep [OF k, where e=e and ?t1.0=t1 and ?db1.0=d1 and ?t2.0=t2 and ?db2.0=d2 and bid=bid and a=a]
  show ?thesis using k by (simp add: st tier1_unfold r) (simp add: key_of_def)
qed

lemma tier2_indep:
  assumes "key_of st1 = key_of st2"
  shows "fst (tier2 (e\<lparr>trackBot := t1\<rparr>) bid spk a st1)
           = fst (tier2 (e\<lparr>trackBot := t2\<rparr>) bid spk a st2)
       \<and> key_of (snd (tier2 (e\<lparr>trackBot := t1\<rparr>) bid spk a st1))
           = key_of (snd (tier2 (e\<lparr>trackBot := t2\<rparr>) bid spk a st2))"
proof -
  obtain v1 d1 v2 d2 where st: "st1 = (v1, d1)" "st2 = (v2, d2)" by (cases st1, cases st2)
  with assms have k: "map_option apiKey v1 = map_option apiKey v2" by (simp add: key_of_def)
  note r = searchVideoSegmentTool_indep [OF k, where e=e and ?t1.0=t1 and ?db1.0=d1 and ?t2.0=t2 and ?db2.0=d2 and bid=bid and a=a]
  show ?thesis using k by (simp add: st tier2_unfold r) (simp add: key_of_def)
qed

lemma tier3_indep:
  assumes "key_of st1 = key_of st2"
  shows "fst (tier3 (e\<lparr>trackBot := t1\<rparr>) bd terms st1)
           = fst (tier3 (e\<lparr>trackBot := t2\<rparr>) bd terms st2)
       \<and> key_of (snd (tier3 (e\<lparr>trackBot := t1\<rparr>) bd terms st1))
           = key_of (snd (tier3 (e\<lparr>trackBot := t2\<rparr>) bd terms st2))"
  using assms by (simp add: tier3_def)

lemma tier4_indep:
  assumes "key_of st1 = key_of st2"
  shows "fst (tier4 (e\<lparr>trackBot := t1\<rparr>) bid terms st1)
           = fst (tier4 (e\<lparr>trackBot := t2\<rparr>) bid terms st2)
       \<and> key_of (snd (tier4 (e\<lparr>trackBot := t1\<rparr>) bid terms st1))
           = key_of (snd (tier4 (e\<lparr>trackBot := t2\<rparr>) bid terms st2))"
proof -
  obtain v1 d1 v2 d2 where st: "st1 = (v1, d1)" "st2 = (v2, d2)" by (cases st1, cases st2)
  with assms have k: "map_option apiKey v1 = map_option apiKey v2" by (simp add: key_of_def)
  note r = searchTranscriptTool_indep [OF k, where e=e and ?t1.0=t1 and ?db1.0=d1 and ?t2.0=t2 and ?db2.0=d2 and bid=bid and q=terms]
  show ?thesis using k by (simp add: st tier4_unfold r) (simp add: key_of_def)
qed

lemma tier5_indep:
  assumes "key_of st1 = key_of st2"
  shows "fst (tier5 (e\<lparr>trackBot := t1\<rparr>) bid a st1)
           = fst (tier5 (e\<lparr>trackBot := t2\<rparr>) bid a st2)"
proof -
  obtain v1 d1 v2 d2 where st: "st1 = (v1, d1)" "st2 = (v2, d2)" by (cases st1, cases st2)
  with assms have k: "map_option apiKey v1 = map_option apiKey v2" by (simp add: key_of_def)
  note r = searchVideoSegmentTool_indep [OF k, where e=e and ?t1.0=t1 and ?db1.0=d1 and ?t2.0=t2 and ?db2.0=d2 and bid=bid and a=a]
  show ?thesis by (simp add: st tier5_unfold r)
qed

lemma or_else_indep:
  assumes "fst a1 = fst a2" "key_of (snd a1) = key_of (snd a2)"
    and "\<And>st1 st2. key_of st1 = key_of st2 \<Longrightarrow>
           fst (n1 st1) = fst (n2 st2) \<and> key_of (snd (n1 st1)) = key_of (snd (n2 st2))"
  shows "fst (or_else a1 n1) = fst (or_else a2 n2)
       \<and> key_of (snd (or_else a1 n1)) = key_of (snd (or_else a2 n2))"
  using assms by (cases a1; cases a2) (auto simp: or_else_def split: sum.splits option.splits)

lemma or_finally_indep:
  assumes "fst a1 = fst a2" "key_of (snd a1) = key_of (snd a2)"
    and "\<And>st1 st2. key_of st1 = key_of st2 \<Longrightarrow> fst (n1 st1) = fst (n2 st2)"
  shows "fst (or_finally a1 n1) = fst (or_finally a2 n2)"
  using assms by (cases a1; cases a2) (auto simp: or_finally_def split: sum.splits option.splits)

lemma search_tiers_indep:
  assumes "key_of st1 = key_of st2"
  shows "fst (search_tiers (e\<lparr>trackBot := t1\<rparr>) args bd st1)
           = fst (search_tiers (e\<lparr>trackBot := t2\<rparr>) args bd st2)"
proof -
  let ?e1 = "e\<lparr>trackBot := t1\<rparr>" and ?e2 = "e\<lparr>trackBot := t2\<rparr>"
  define spk where "spk = resolveSpeaker (sa_query args) (sa_filters args)"
  define tr where "tr = resolveTimeRange (sa_query args) (sa_filters args)"
  define terms where "terms = extractSearchTerms (sa_query args)"
  define a where "a = \<lparr>vs_startTime = startTime tr, vs_endTime = endTime tr, vs_speaker = spk\<rparr>"
  define bid where "bid = sa_botId args"
  let ?T1 = "\<lambda>e. tier1 e bid bd spk a terms"
  let ?T2 = "\<lambda>e. or_else (?T1 e st1) (tier2 e bid spk a)"
  let ?T2' = "\<lambda>e. or_else (?T1 e st2) (tier2 e bid spk a)"
  let ?T3 = "\<lambda>e. or_else (?T2 e) (tier3 e bd terms)"
  let ?T3' = "\<lambda>e. or_else (?T2' e) (tier3 e bd terms)"
  let ?T4 = "\<lambda>e. or_else (?T3 e) (tier4 e bid terms)"
  let ?T4' = "\<lambda>e. or_else (?T3' e) (tier4 e bid terms)"
  have s1: "fst (?T1 ?e1 st1) = fst (?T1 ?e2 st2)
            \<and> key_of (snd (?T1 ?e1 st1)) = key_of (snd (?T1 ?e2 st2))"
    by (rule tier1_indep [OF assms])
  have s2: "fst (?T2 ?e1) = fst (?T2' ?e2) \<and> key_of (snd (?T2 ?e1)) = key_of (snd (?T2' ?e2))"
    by (rule or_else_indep [OF s1 [THEN conjunct1] s1 [THEN conjunct2]]) (rule tier2_indep)
  have s3: "fst (?T3 ?e1) = fst (?T3' ?e2) \<and> key_of (snd (?T3 ?e1)) = key_of (snd (?T3' ?e2))"
    by (rule or_else_indep [OF s2 [THEN conjunct1] s2 [THEN conjunct2]]) (rule tier3_indep)
  have s4: "fst (?T4 ?e1) = fst (?T4' ?e2) \<and> key_of (snd (?T4 ?e1)) = key_of (snd (?T4' ?e2))"
    by (rule or_else_indep [OF s3 [THEN conjunct1] s3 [THEN conjunct2]]) (rule tier4_indep)
  have s5: "fst (or_finally (?T4 ?e1) (tier5 ?e1 bid a)) = fst (or_finally (?T4' ?e2) (tier5 ?e2 bid a))"
    by (rule or_finally_indep [OF s4 [THEN conjunct1] s4 [THEN conjunct2]]) (rule tier5_indep)
  show ?thesis
    unfolding search_tiers_def Let_def
    using s5 by (simp add: spk_def tr_def terms_def a_def bid_def)
qed

lemma intelligentSearchTool_result:
  "fst (intelligentSearchTool e sess db args) =
     (case getApiKeyWithFallbacks e sess of
        None \<Rightarrow> authenticationFailed
      | Some key \<Rightarrow>
          (case apiRequest e key (sa_botId args) of
             Inl m \<Rightarrow> Text (''Error searching meeting '' @ sa_botId args @ '': '' @ m)
           | Inr botData \<Rightarrow>
               (case fst (search_tiers e args botData
                            (Some \<lparr>apiKey = key, recentBotIds = None\<rparr>,
                             snd (updateRecentBots e sess db (sa_botId args)
                                    (Some (extractBotMetadata botData))))) of
                  Inl m \<Rightarrow> Text (''Error searching meeting '' @ sa_botId args @ '': '' @ m)
                | Inr r \<Rightarrow> r)))"
  by (simp add: intelligentSearchTool_def createValidSession_def
           split: option.splits sum.splits prod.splits)

text \<open>
  C8. A failure of the write to the store of recent bots neither aborts a search tool
  nor changes what it returns: whatever the write does (\<open>t1\<close>, \<open>t2\<close>: throw or succeed)
  and whatever state the store is in, the transcript search, the segment search and the
  intelligent search (with the searches it runs inside) return the same result.
\<close>

theorem tracking_failure_harmless:
  "fst (searchTranscriptTool (e\<lparr>trackBot := t1\<rparr>) sess db1 bid q)
     = fst (searchTranscriptTool (e\<lparr>trackBot := t2\<rparr>) sess db2 bid q)
   \<and> fst (searchVideoSegmentTool (e\<lparr>trackBot := t1\<rparr>) sess db1 bid a)
     = fst (searchVideoSegmentTool (e\<lparr>trackBot := t2\<rparr>) sess db2 bid a)
   \<and> fst (intelligentSearchTool (e\<lparr>trackBot := t1\<rparr>) sess db1 args)
     = fst (intelligentSearchTool (e\<lparr>trackBot := t2\<rparr>) sess db2 args)"
proof -
  have k: "map_option apiKey sess = map_option apiKey sess" by simp
  have 3: "fst (intelligentSearchTool (e\<lparr>trackBot := t1\<rparr>) sess db1 args)
     = fst (intelligentSearchTool (e\<lparr>trackBot := t2\<rparr>) sess db2 args)"
  proof -
    have T: "\<And>bd key x1 x2.
        fst (search_tiers (e\<lparr>trackBot := t1\<rparr>) args bd (Some \<lparr>apiKey = key, recentBotIds = None\<rparr>, x1))
      = fst (search_tiers (e\<lparr>trackBot := t2\<rparr>) args bd (Some \<lparr>apiKey = key, recentBotIds = None\<rparr>, x2))"
      by (rule search_tiers_indep) (simp add: key_of_def)
    show ?thesis
    proof (cases "getApiKeyWithFallbacks e sess")
      case None
      then show ?thesis by (simp add: intelligentSearchTool_result)
    next
      case (Some key)
      show ?thesis
      proof (cases "apiRequest e key (sa_botId args)")
        case (Inl m)
        with Some show ?thesis by (simp add: intelligentSearchTool_result)
      next
        case (Inr bd)
        from Some Inr
          T [of bd key
               "snd (updateRecentBots (e\<lparr>trackBot := t1\<rparr>) sess db1 (sa_botId args)
                       (Some (extractBotMetadata bd)))"
               "snd (updateRecentBots (e\<lparr>trackBot := t2\<rparr>) sess db2 (sa_botId args)
                       (Some (extractBotMetadata bd)))"]
        show ?thesis by (simp add: intelligentSearchTool_result)
      qed
    qed
  qed
  have 1: "fst (searchTranscriptTool (e\<lparr>trackBot := t1\<rparr>) sess db1 bid q)
     = fst (searchTranscriptTool (e\<lparr>trackBot := t2\<rparr>) sess db2 bid q)"
    by (rule searchTranscriptTool_indep [OF k])
  have 2: "fst (searchVideoSegmentTool (e\<lparr>trackBot := t1\<rparr>) sess db1 bid a)
     = fst (searchVideoSegmentTool (e\<lparr>trackBot := t2\<rparr>) sess db2 bid a)"
    by (rule searchVideoSegmentTool_indep [OF k])
  from 1 2 3 show ?thesis by (intro conjI)
qed

theorem tracking_failure_harmless_witness:
  "fst (intelligentSearchTool (demo_env\<lparr>trackBot := failing_store\<rparr>) (Some demo_session) ()
          \<lparr>sa_query = ''budget'', sa_botId = ''b1'', sa_filters = None\<rparr>)
     = fst (intelligentSearchTool demo_env (Some demo_session) ()
              \<lparr>sa_query = ''budget'', sa_botId = ''b1'', sa_filters = None\<rparr>)
   \<and> fst (intelligentSearchTool demo_env (Some demo_session) ()
            \<lparr>sa_query = ''budget'', sa_botId = ''b1'', sa_filters = None\<rparr>)
     = Text (''Found 1 results for '' @ dq @ ''budget'' @ dq @ '':'' @ nl @ nl
             @ ''[400] Bob: the budget is fine'')
   \<and> trackBot (demo_env\<lparr>trackBot := failing_store\<rparr>) () ''b1'' \<lparr>md_name = None, md_topics = None\<rparr>
     = Inl ''EACCES: permission denied''"
proof -
  have e: "demo_env\<lparr>trackBot := (\<lambda>db bid metadata. Inr db)\<rparr> = demo_env"
    by (simp add: demo_env_def)
  have r: "fst (intelligentSearchTool demo_env (Some demo_session) ()
            \<lparr>sa_query = ''budget'', sa_botId = ''b1'', sa_filters = None\<rparr>)
     = Text (''Found 1 results for '' @ dq @ ''budget'' @ dq @ '':'' @ nl @ nl
             @ ''[400] Bob: the budget is fine'')"
    by code_simp
  from tracking_failure_harmless [where e = demo_env and ?t1.0 = failing_store
      and sess = "Some demo_session" and ?db1.0 = "()" and bid = "''b1''" and q = "''budget''"
      and ?t2.0 = "\<lambda>db bid metadata. Inr db" and ?db2.0 = "()" and a = no_filters
      and args = "\<lparr>sa_query = ''budget'', sa_botId = ''b1'', sa_filters = None\<rparr>"] e r
  show ?thesis by (simp add: failing_store_def)
qed

text \<open>
  C9. After every call of \<open>updateRecentBots\<close> with the session present, and so after any
  number of calls with arbitrary bot ids, the list of recent bots has at most five
  entries and the bot just tracked in front; and it has no duplicates, provided the list
  the session started with had none (a fresh session has no list). Whether the store
  accepts the write plays no part.
\<close>

theorem recent_bots_invariant:
  assumes "calls \<noteq> []"
  shows "\<exists>s' ids.
           fst (foldl (\<lambda>(sess, db) (bid, md). updateRecentBots e sess db bid md) (Some s, db) calls)
             = Some s'
           \<and> recentBotIds s' = Some ids \<and> length ids \<le> 5 \<and> ids \<noteq> []
           \<and> hd ids = fst (last calls)
           \<and> (distinct (case recentBotIds s of None \<Rightarrow> [] | Some ids \<Rightarrow> ids) \<longrightarrow> distinct ids)"
  using recent_ok_foldl [OF assms, where e = e and db = db and s = s]
  by (auto simp: recent_ok_def split: option.splits)

theorem recent_bots_invariant_witness:
  "[(''a'', None), (''b'', Some \<lparr>md_name = None, md_topics = None\<rparr>), (''a'', None),
    (''c'', None), (''d'', None), (''e'', None), (''f'', None)] \<noteq> []
   \<and> distinct (case recentBotIds demo_session of None \<Rightarrow> [] | Some ids \<Rightarrow> ids)
   \<and> fst (foldl (\<lambda>(sess, db) (bid, md).
                   updateRecentBots (demo_env\<lparr>trackBot := failing_store\<rparr>) sess db bid md)
            (Some demo_session, ())
            [(''a'', None), (''b'', Some \<lparr>md_name = None, md_topics = None\<rparr>), (''a'', None),
             (''c'', None), (''d'', None), (''e'', None), (''f'', None)])
       = Some \<lparr>apiKey = ''key'', recentBotIds = Some [''f'', ''e'', ''d'', ''c'', ''a'']\<rparr>"
  using recent_bots_invariant [where s = demo_session
      and calls = "[(''a'', None), (''b'', Some \<lparr>md_name = None, md_topics = None\<rparr>),
                    (''a'', None), (''c'', None), (''d'', None), (''e'', None), (''f'', None)]"
      and e = "demo_env\<lparr>trackBot := failing_store\<rparr>" and db = "()"]
  by (simp add: updateRecentBots_def demo_session_def failing_store_def)

section \<open>What the intelligent search does with filters and with an empty tier 4\<close>

text \<open>
  C2. The code at a call with an explicit start time and a query that names another one:
  the filter says 100 seconds, the query says "after 5", and the range used is the
  query's 300 seconds; the segment at 150 seconds is missing from the answer, which is the
  segment listing from 300 seconds on and not the one from 100 seconds on. The speaker is
  guarded the other way round: an explicit speaker is kept, and the query is consulted
  only without one.
\<close>

theorem time_filter_overridden:
  "resolveTimeRange ''what did Bob say after 5'' (Some start_at_100)
     = \<lparr>startTime = Some 300, endTime = None\<rparr>
   \<and> fst (intelligentSearchTool bob_env (Some demo_session) ()
            \<lparr>sa_query = ''what did Bob say after 5'', sa_botId = ''b1'',
              sa_filters = Some start_at_100\<rparr>)
     = fst (searchVideoSegmentTool bob_env (Some demo_session) () ''b1''
              \<lparr>vs_startTime = Some 300, vs_endTime = None, vs_speaker = Some ''Bob''\<rparr>)
   \<and> fst (searchVideoSegmentTool bob_env (Some demo_session) () ''b1''
            \<lparr>vs_startTime = Some 300, vs_endTime = None, vs_speaker = Some ''Bob''\<rparr>)
     \<noteq> fst (searchVideoSegmentTool bob_env (Some demo_session) () ''b1''
              \<lparr>vs_startTime = Some 100, vs_endTime = None, vs_speaker = Some ''Bob''\<rparr>)
   \<and> map start_time
         (filteredTranscripts \<lparr>vs_startTime = Some 300, vs_endTime = None, vs_speaker = Some ''Bob''\<rparr>
            (transcripts bob_meeting)) = [400]
   \<and> map start_time
         (filteredTranscripts \<lparr>vs_startTime = Some 100, vs_endTime = None, vs_speaker = Some ''Bob''\<rparr>
            (transcripts bob_meeting)) = [150, 400]
   \<and> resolveSpeaker ''what did Bob say about budget'' (Some speaker_alice) = Some ''Alice''
   \<and> resolveSpeaker ''what did Bob say about budget'' None = Some ''Bob''"
  by code_simp

theorem time_filter_overridden_witness:
  "startTime (resolveTimeRange ''what did Bob say after 5'' (Some start_at_100)) = Some 300
   \<and> filter_startTime start_at_100 = Some 100
   \<and> map start_time
         (filteredTranscripts \<lparr>vs_startTime = Some 300, vs_endTime = None, vs_speaker = Some ''Bob''\<rparr>
            (transcripts bob_meeting)) = [400]"
  using time_filter_overridden by (simp add: start_at_100_def)

text \<open>
  C3. The code at a call whose search terms match nothing: tier 4 returns the transcript
  search's "No results found" text as the answer of the intelligent search; the segment
  listing of tier 5 (here two segments) is not returned.
\<close>

theorem tier4_returns_empty_result:
  "extractSearchTerms ''zzz'' = ''zzz''
   \<and> fst (intelligentSearchTool demo_env (Some demo_session) ()
            \<lparr>sa_query = ''zzz'', sa_botId = ''b1'', sa_filters = None\<rparr>)
     = Text (''No results found for '' @ dq @ ''zzz'' @ dq)
   \<and> fst (searchVideoSegmentTool demo_env (Some demo_session) () ''b1'' no_filters)
     = Content
         [''Found 2 segments from 0 to 400 in meeting '' @ dq @ ''Weekly sync'' @ dq @ ''.'',
          ''Watch from beginning of segment: https://v.example/m.mp4?t=0'',
          ''Individual segments:'' @ nl @ nl
            @ ''[0] Alice Smith: hello world'' @ nl
            @ ''Segment link: https://v.example/m.mp4?t=0'' @ nl @ nl
            @ ''[400] Bob: the budget is fine'' @ nl
            @ ''Segment link: https://v.example/m.mp4?t=400'']
         False
   \<and> fst (intelligentSearchTool demo_env (Some demo_session) ()
            \<lparr>sa_query = ''zzz'', sa_botId = ''b1'', sa_filters = None\<rparr>)
     \<noteq> fst (searchVideoSegmentTool demo_env (Some demo_session) () ''b1'' no_filters)"
  by code_simp

theorem tier4_returns_empty_result_witness:
  "fst (intelligentSearchTool demo_env (Some demo_session) ()
          \<lparr>sa_query = ''zzz'', sa_botId = ''b1'', sa_filters = None\<rparr>)
     = Text (''No results found for '' @ dq @ ''zzz'' @ dq)
   \<and> trim (extractSearchTerms ''zzz'') \<noteq> []"
  using tier4_returns_empty_result by (simp add: trim_def is_space_def)

end
